theory Spec2Isabelle
  imports Main
begin

section \<open>Python values and errors\<close>

text \<open>
  The embedded program is \<^verbatim>\<open>benchmarks.py\<close>. Every exception the modelled code can raise is a
  value of \<open>error\<close>; a function that can raise returns a sum with the error on the left.
\<close>

datatype error =
    KeyError string
  | KeyErrorInt int
  | ValueError string
  | TypeError
  | UnboundLocalError string
  | AttributeError
  | IndexError

subsection \<open>String helpers of the Python runtime\<close>

text \<open>\<^verbatim>\<open>s.split(sep)\<close> for a one-character separator: always at least one piece.\<close>

fun split_on :: "char \<Rightarrow> string \<Rightarrow> string list" where
  "split_on sep [] = [[]]"
| "split_on sep (c # cs) =
     (if c = sep then [] # split_on sep cs
      else (case split_on sep cs of
              [] \<Rightarrow> [[c]]
            | p # ps \<Rightarrow> (c # p) # ps))"

text \<open>
  \<^verbatim>\<open>s.replace(old, new)\<close> for a non-empty \<open>old\<close>: the occurrences are replaced from the
  left and do not overlap. The counter is the number of characters of a matched occurrence
  still to be skipped.
\<close>

fun replace_from :: "string \<Rightarrow> string \<Rightarrow> nat \<Rightarrow> string \<Rightarrow> string" where
  "replace_from old new k [] = []"
| "replace_from old new (Suc k) (c # cs) = replace_from old new k cs"
| "replace_from old new 0 (c # cs) =
     (if take (length old) (c # cs) = old
      then new @ replace_from old new (length old - 1) cs
      else c # replace_from old new 0 cs)"

definition replace_str :: "string \<Rightarrow> string \<Rightarrow> string \<Rightarrow> string" where
  "replace_str s old new = replace_from old new 0 s"

text \<open>
  \<^verbatim>\<open>int(s)\<close> on a string, base ten, on ASCII input: surrounding whitespace is dropped, one sign
  is allowed, and single underscores may separate digits. \<open>None\<close> stands for the
  \<^verbatim>\<open>ValueError\<close> of the call.
\<close>

definition is_space :: "char \<Rightarrow> bool" where
  "is_space c = (c \<in> set [CHR '' '', CHR 0x09, CHR 0x0A, CHR 0x0B, CHR 0x0C, CHR 0x0D])"

definition strip :: "string \<Rightarrow> string" where
  "strip s = rev (dropWhile is_space (rev (dropWhile is_space s)))"

definition digit_val :: "char \<Rightarrow> nat option" where
  "digit_val c = map_of (zip ''0123456789'' [0 ..< 10]) c"

fun digits_val :: "string \<Rightarrow> bool \<Rightarrow> nat \<Rightarrow> nat option" where
  "digits_val [] after_digit acc = (if after_digit then Some acc else None)"
| "digits_val (c # cs) after_digit acc =
     (if c = CHR ''_'' then (if after_digit then digits_val cs False acc else None)
      else (case digit_val c of
              None \<Rightarrow> None
            | Some d \<Rightarrow> digits_val cs True (10 * acc + d)))"

definition py_int :: "string \<Rightarrow> int option" where
  "py_int s =
     (case strip s of
        [] \<Rightarrow> None
      | c # cs \<Rightarrow>
          if c = CHR ''-'' then map_option (\<lambda>n. - int n) (digits_val cs False 0)
          else if c = CHR ''+'' then map_option int (digits_val cs False 0)
          else map_option int (digits_val (c # cs) False 0))"

section \<open>The tracking table\<close>

text \<open>
  One row of the tracking file, with the header
  \<^verbatim>\<open>benchmark_name, system_name, devices, docker_name, status, cmd\<close>. The field
  \<open>devices\<close> holds \<^verbatim>\<open>str(row['devices'])\<close>, the text that \<^verbatim>\<open>run_cycle\<close> splits at commas;
  \<open>status\<close> is one of the three literals the program writes and compares with.
\<close>

datatype status = PENDING | RUNNING | STOPPED

record job_record =
  benchmark_name :: string
  system_name :: string
  devices :: string
  docker_name :: string
  status :: status
  cmd :: string

section \<open>The dispatcher: \<^verbatim>\<open>run_cycle\<close>\<close>

text \<open>
  The external signals of one pass. \<open>containers_list\<close> is the list of names that
  \<^verbatim>\<open>client.containers.list()\<close> returns, in its order. \<open>new_query k\<close> is what the call number
  \<open>k\<close> (from 0) of \<^verbatim>\<open>GPUStatCollection.new_query()\<close> reports during the pass: for each
  GPU entry its index and the length of its process list. \<open>os_system\<close> is the exit status
  that \<^verbatim>\<open>os.system\<close> returns for a command.
\<close>

record world =
  containers_list :: "string list"
  new_query :: "nat \<Rightarrow> (int \<times> nat) list"
  os_system :: "string \<Rightarrow> int"

text \<open>
  The state of a pass: the data frame, the number of occupancy queries made so far, the
  calls of \<^verbatim>\<open>os.system\<close> in order (each with the index of the row being processed), and the
  seconds spent in \<^verbatim>\<open>time.sleep\<close>.
\<close>

record cycle_state =
  df :: "job_record list"
  queries :: nat
  launched :: "(nat \<times> string) list"
  slept :: nat

text \<open>\<^verbatim>\<open>df.loc[df['docker_name'] == name, ['status']] = s\<close>\<close>

definition mark :: "string \<Rightarrow> status \<Rightarrow> job_record list \<Rightarrow> job_record list" where
  "mark name s rows = map (\<lambda>r. if docker_name r = name then r\<lparr>status := s\<rparr> else r) rows"

text \<open>The loop that fills \<^verbatim>\<open>gpus_status_dict\<close>: a later entry with the same index wins.\<close>

definition gpus_status_dict :: "(int \<times> nat) list \<Rightarrow> (int \<rightharpoonup> nat)" where
  "gpus_status_dict gpus = fold (\<lambda>(i, n) d. d(i \<mapsto> n)) gpus Map.empty"

text \<open>
  The loop \<^verbatim>\<open>for gpu in gpus: nb_processes += gpus_status_dict[int(gpu)]\<close>; \<^verbatim>\<open>int\<close> raises
  \<^verbatim>\<open>ValueError\<close> and the lookup raises \<^verbatim>\<open>KeyError\<close>.
\<close>

fun count_processes :: "(int \<rightharpoonup> nat) \<Rightarrow> string list \<Rightarrow> nat \<Rightarrow> error + nat" where
  "count_processes d [] nb_processes = Inr nb_processes"
| "count_processes d (gpu # gpus) nb_processes =
     (case py_int gpu of
        None \<Rightarrow> Inl (ValueError gpu)
      | Some k \<Rightarrow>
          (case d k of
             None \<Rightarrow> Inl (KeyErrorInt k)
           | Some n \<Rightarrow> count_processes d gpus (nb_processes + n)))"

text \<open>
  The body of \<^verbatim>\<open>for index, row in df.iterrows()\<close>. \<open>row\<close> is the copy that
  \<^verbatim>\<open>iterrows\<close> hands out; \<open>container\<close> is the loop variable left over from the loop over
  the live containers, unbound when that loop had nothing to run over. A raised error comes
  with the state reached when it was raised.
\<close>

definition stop_stale ::
  "world \<Rightarrow> string option \<Rightarrow> job_record \<Rightarrow> cycle_state \<Rightarrow> (error \<times> cycle_state) + cycle_state"
where
  "stop_stale w container row st =
     (if status row = RUNNING \<and> docker_name row \<notin> set (containers_list w)
      then (case container of
              None \<Rightarrow> Inl (UnboundLocalError ''container'', st)
            | Some c \<Rightarrow> Inr (st\<lparr>df := mark c STOPPED (df st)\<rparr>))
      else Inr st)"

definition start_pending ::
  "world \<Rightarrow> bool \<Rightarrow> nat \<Rightarrow> job_record \<Rightarrow> cycle_state \<Rightarrow> (error \<times> cycle_state) + cycle_state"
where
  "start_pending w interactive_mode index row st =
     (if status row = PENDING
      then (let d = gpus_status_dict (new_query w (queries st));
                st1 = st\<lparr>queries := queries st + 1\<rparr>
            in case count_processes d (split_on CHR '','' (devices row)) 0 of
                 Inl e \<Rightarrow> Inl (e, st1)
               | Inr nb_processes \<Rightarrow>
                   if nb_processes = 0
                   then (let c = (if interactive_mode
                                  then replace_str (cmd row) '' -d '' '' -it ''
                                  else cmd row);
                             exit_status = os_system w c
                         in Inr (st1\<lparr>launched := launched st1 @ [(index, c)],
                                      slept := slept st1 + 15\<rparr>))
                   else Inr st1)
      else Inr st)"

definition row_step ::
  "world \<Rightarrow> bool \<Rightarrow> string option \<Rightarrow> nat \<times> job_record \<Rightarrow> cycle_state
     \<Rightarrow> (error \<times> cycle_state) + cycle_state"
where
  "row_step w interactive_mode container ir st =
     (case stop_stale w container (snd ir) st of
        Inl e \<Rightarrow> Inl e
      | Inr st1 \<Rightarrow> start_pending w interactive_mode (fst ir) (snd ir) st1)"

fun rows_loop ::
  "world \<Rightarrow> bool \<Rightarrow> string option \<Rightarrow> (nat \<times> job_record) list \<Rightarrow> cycle_state
     \<Rightarrow> (error \<times> cycle_state) + cycle_state"
where
  "rows_loop w interactive_mode container [] st = Inr st"
| "rows_loop w interactive_mode container (ir # irs) st =
     (case row_step w interactive_mode container ir st of
        Inl e \<Rightarrow> Inl e
      | Inr st1 \<Rightarrow> rows_loop w interactive_mode container irs st1)"

text \<open>
  The loop over the live containers marks every row of the same name RUNNING; its loop
  variable stays bound to the last container.
\<close>

definition mark_live :: "string list \<Rightarrow> job_record list \<Rightarrow> job_record list" where
  "mark_live names rows = fold (\<lambda>name d. mark name RUNNING d) names rows"

definition last_container :: "string list \<Rightarrow> string option" where
  "last_container names = (if names = [] then None else Some (last names))"

text \<open>
  One pass over the table read from the tracking file. The query of line 175 is call 0, so
  the row loop starts with one query made. \<^verbatim>\<open>show_cmd\<close> only prints. The result is the state
  that \<^verbatim>\<open>df.to_csv\<close> persists, or the error that ended the pass before that line.
\<close>

definition run_cycle ::
  "world \<Rightarrow> bool \<Rightarrow> bool \<Rightarrow> job_record list \<Rightarrow> (error \<times> cycle_state) + cycle_state"
where
  "run_cycle w interactive_mode show_cmd tracking =
     (let st = \<lparr>df = mark_live (containers_list w) tracking, queries = 1,
                 launched = [], slept = 0\<rparr>
      in rows_loop w interactive_mode (last_container (containers_list w))
           (enumerate 0 (df st)) st)"

text \<open>The content of the tracking file after the pass: rewritten only when no error was raised.\<close>

definition tracking_after ::
  "job_record list \<Rightarrow> (error \<times> cycle_state) + cycle_state \<Rightarrow> job_record list"
where
  "tracking_after tracking res = (case res of Inl e \<Rightarrow> tracking | Inr st \<Rightarrow> df st)"

text \<open>The rows launched by a pass, whether it ended with an error or not.\<close>

definition launched_of :: "(error \<times> cycle_state) + cycle_state \<Rightarrow> (nat \<times> string) list" where
  "launched_of res = (case res of Inl (e, st) \<Rightarrow> launched st | Inr st \<Rightarrow> launched st)"

text \<open>The state a pass has reached, and the error it raised, if any.\<close>

definition reached :: "(error \<times> cycle_state) + cycle_state \<Rightarrow> cycle_state" where
  "reached res = (case res of Inl (e, st) \<Rightarrow> st | Inr st \<Rightarrow> st)"

definition raised :: "(error \<times> cycle_state) + cycle_state \<Rightarrow> error option" where
  "raised res = (case res of Inl (e, st) \<Rightarrow> Some e | Inr st \<Rightarrow> None)"

text \<open>The state in which the row loop starts.\<close>

definition start_state :: "world \<Rightarrow> job_record list \<Rightarrow> cycle_state" where
  "start_state w tracking =
     \<lparr>df = mark_live (containers_list w) tracking, queries = 1, launched = [], slept = 0\<rparr>"

subsection \<open>Notions used to state the properties of a pass\<close>

text \<open>
  The number of rows before position \<open>i\<close> that the row loop reads as PENDING. Each of them
  makes one occupancy query, so the query made for row \<open>i\<close> is call number
  \<open>1 + pending_before rows i\<close>; \<open>query_dict\<close> is the dictionary built from it.
\<close>

definition pending_before :: "job_record list \<Rightarrow> nat \<Rightarrow> nat" where
  "pending_before rows i = length (filter (\<lambda>r. status r = PENDING) (take i rows))"

definition query_dict :: "world \<Rightarrow> job_record list \<Rightarrow> nat \<Rightarrow> (int \<rightharpoonup> nat)" where
  "query_dict w rows i = gpus_status_dict (new_query w (1 + pending_before rows i))"

text \<open>
  The eligibility rule in the words of the specification: every assigned device is an
  integer index that the occupancy mapping knows, and the process counts over the assigned
  device set add up to zero.
\<close>

definition devices_idle :: "(int \<rightharpoonup> nat) \<Rightarrow> string \<Rightarrow> bool" where
  "devices_idle occupancy devs =
     (\<exists>ks. map py_int (split_on CHR '','' devs) = map Some ks \<and>
           set ks \<subseteq> dom occupancy \<and> (\<Sum>k\<in>set ks. the (occupancy k)) = 0)"

subsection \<open>Example tables and worlds\<close>

text \<open>
  A row with the given name, device field and status, and a world with the given live
  containers and occupancy reports, in which every launched command exits with status 0.
\<close>

definition job :: "string \<Rightarrow> string \<Rightarrow> status \<Rightarrow> job_record" where
  "job name devs s =
     \<lparr>benchmark_name = ''bench'', system_name = ''sys'', devices = devs, docker_name = name,
      status = s, cmd = ''docker run -d --rm --ipc=host --name='' @ name @ '' img''\<rparr>"

definition world_of :: "string list \<Rightarrow> (nat \<Rightarrow> (int \<times> nat) list) \<Rightarrow> world" where
  "world_of names q = \<lparr>containers_list = names, new_query = q, os_system = (\<lambda>c. 0)\<rparr>"

definition idle0 :: "nat \<Rightarrow> (int \<times> nat) list" where
  "idle0 k = [(0, 0)]"

definition idle01 :: "nat \<Rightarrow> (int \<times> nat) list" where
  "idle01 k = [(0, 0), (1, 0)]"

definition busy1 :: "nat \<Rightarrow> (int \<times> nat) list" where
  "busy1 k = [(0, 0), (1, 1)]"

definition busy_at_third_query :: "nat \<Rightarrow> (int \<times> nat) list" where
  "busy_at_third_query k = (if k = 2 then [(0, 1)] else [(0, 0)])"

definition two_running :: "job_record list" where
  "two_running = [job ''A'' ''0'' RUNNING, job ''B'' ''0'' RUNNING]"

section \<open>The parameter expander: \<^verbatim>\<open>product_dict\<close>\<close>

text \<open>
  The library function \<^verbatim>\<open>itertools.product(*iterables)\<close>, written as the equivalent code of
  its documentation: \<^verbatim>\<open>result = [[]]\<close>, then for every pool
  \<^verbatim>\<open>result = [x + [y] for x in result for y in pool]\<close>.
\<close>

definition product_step :: "'a list list \<Rightarrow> 'a list \<Rightarrow> 'a list list" where
  "product_step result pool = concat (map (\<lambda>x. map (\<lambda>y. x @ [y]) pool) result)"

definition itertools_product :: "'a list list \<Rightarrow> 'a list list" where
  "itertools_product pools = fold (\<lambda>pool result. product_step result pool) pools [[]]"

text \<open>
  \<^verbatim>\<open>product_dict(**kwargs)\<close>, lines 35 to 40. The dictionary \<open>kwargs\<close> is the list of its
  items in insertion order, each value being the list of candidates of one axis; every
  yielded \<^verbatim>\<open>dict(zip(keys, instance))\<close> is the list of its items as well. The generator
  is read to its end, as \<^verbatim>\<open>list(product_dict(...))\<close> does at line 64.
\<close>

definition product_dict :: "(string \<times> 'a list) list \<Rightarrow> (string \<times> 'a) list list" where
  "product_dict kwargs =
     (let keys = map fst kwargs; vals = map snd kwargs
      in map (\<lambda>instance. zip keys instance) (itertools_product vals))"

text \<open>
  The order in the words of the specification, to compare with: assignment number \<open>n\<close>
  takes from every axis the candidate at the digit of \<open>n\<close> written in the mixed radix of
  the axis lengths, the last axis being the least significant digit, so that the rightmost
  axis varies fastest.
\<close>

fun mixed_radix_pick :: "'a list list \<Rightarrow> nat \<Rightarrow> 'a list" where
  "mixed_radix_pick [] n = []"
| "mixed_radix_pick (xs # xss) n =
     xs ! (n div prod_list (map length xss)) # mixed_radix_pick xss (n mod prod_list (map length xss))"

definition cartesian_order :: "(string \<times> 'a list) list \<Rightarrow> (string \<times> 'a) list list" where
  "cartesian_order kwargs =
     map (\<lambda>n. zip (map fst kwargs) (mixed_radix_pick (map snd kwargs) n))
       [0 ..< prod_list (map (\<lambda>kv. length (snd kv)) kwargs)]"

text \<open>The parameter axes of the end-to-end scenario A.\<close>

definition scenario_params :: "(string \<times> int list) list" where
  "scenario_params = [(''batch-size'', [32, 64]), (''epochs'', [1])]"

section \<open>The configuration and the job generator\<close>

subsection \<open>Configuration values\<close>

text \<open>
  What \<^verbatim>\<open>yaml.safe_load\<close> returns: scalars, lists and mappings. A mapping is the list of
  its items in insertion order, with string keys that do not repeat. A float is carried by
  its \<^verbatim>\<open>repr\<close>, since the generator only prints floats. The configuration is a tree: no two
  places of it share an object.
\<close>

datatype yaml =
    YNull
  | YBool bool
  | YInt int
  | YFloat string
  | YStr string
  | YList "yaml list"
  | YDict "(string \<times> yaml) list"

definition and_then :: "error + 'a \<Rightarrow> ('a \<Rightarrow> error + 'b) \<Rightarrow> error + 'b" where
  "and_then m f = (case m of Inl e \<Rightarrow> Inl e | Inr v \<Rightarrow> f v)"

text \<open>\<^verbatim>\<open>d[key]\<close> with a string key.\<close>

definition getitem :: "yaml \<Rightarrow> string \<Rightarrow> error + yaml" where
  "getitem d key =
     (case d of
        YDict kvs \<Rightarrow> (case map_of kvs key of None \<Rightarrow> Inl (KeyError key) | Some v \<Rightarrow> Inr v)
      | _ \<Rightarrow> Inl TypeError)"

text \<open>\<^verbatim>\<open>d.items()\<close>\<close>

definition items :: "yaml \<Rightarrow> error + (string \<times> yaml) list" where
  "items d = (case d of YDict kvs \<Rightarrow> Inr kvs | _ \<Rightarrow> Inl AttributeError)"

text \<open>The items that \<^verbatim>\<open>**d\<close> unpacks: only a mapping can be unpacked.\<close>

definition star_items :: "yaml \<Rightarrow> error + (string \<times> yaml) list" where
  "star_items d = (case d of YDict kvs \<Rightarrow> Inr kvs | _ \<Rightarrow> Inl TypeError)"

text \<open>\<^verbatim>\<open>d[key] = v\<close>: an existing key keeps its place.\<close>

fun dict_set :: "string \<Rightarrow> yaml \<Rightarrow> (string \<times> yaml) list \<Rightarrow> (string \<times> yaml) list" where
  "dict_set key v [] = [(key, v)]"
| "dict_set key v ((k, u) # kvs) =
     (if k = key then (k, v) # kvs else (k, u) # dict_set key v kvs)"

text \<open>\<^verbatim>\<open>{**a, **b}\<close>\<close>

definition dict_union ::
  "(string \<times> yaml) list \<Rightarrow> (string \<times> yaml) list \<Rightarrow> (string \<times> yaml) list" where
  "dict_union a b = fold (\<lambda>kv d. dict_set (fst kv) (snd kv) d) b a"

text \<open>The elements that a \<^verbatim>\<open>for\<close> loop, \<^verbatim>\<open>len\<close> or a star argument sees.\<close>

definition iter_yaml :: "yaml \<Rightarrow> error + yaml list" where
  "iter_yaml v =
     (case v of
        YList xs \<Rightarrow> Inr xs
      | YStr s \<Rightarrow> Inr (map (\<lambda>c. YStr [c]) s)
      | YDict kvs \<Rightarrow> Inr (map (\<lambda>kv. YStr (fst kv)) kvs)
      | _ \<Rightarrow> Inl TypeError)"

text \<open>The truth value of a configuration value in an \<^verbatim>\<open>if\<close>.\<close>

definition truthy :: "yaml \<Rightarrow> bool" where
  "truthy v =
     (case v of
        YNull \<Rightarrow> False
      | YBool b \<Rightarrow> b
      | YInt i \<Rightarrow> i \<noteq> 0
      | YFloat r \<Rightarrow> r \<noteq> ''0.0'' \<and> r \<noteq> ''-0.0''
      | YStr s \<Rightarrow> s \<noteq> []
      | YList xs \<Rightarrow> xs \<noteq> []
      | YDict kvs \<Rightarrow> kvs \<noteq> [])"

subsection \<open>Printing values\<close>

definition digit_char :: "nat \<Rightarrow> char" where
  "digit_char n = ''0123456789'' ! (n mod 10)"

function show_nat :: "nat \<Rightarrow> string" where
  "show_nat n = (if n < 10 then [digit_char n] else show_nat (n div 10) @ [digit_char n])"
  by pat_completeness auto
termination
  by (relation "measure (\<lambda>n. n)") auto

definition show_int :: "int \<Rightarrow> string" where
  "show_int i = (if i < 0 then CHR ''-'' # show_nat (nat (- i)) else show_nat (nat i))"

definition join :: "string \<Rightarrow> string list \<Rightarrow> string" where
  "join sep xs = (case xs of [] \<Rightarrow> [] | y # ys \<Rightarrow> y @ concat (map (\<lambda>z. sep @ z) ys))"

text \<open>
  \<^verbatim>\<open>str(v)\<close>, which an f-string applies to a value. Inside a list or a mapping a string is
  printed between single quotes; the escapes that \<^verbatim>\<open>repr\<close> adds to a string with quotes or
  control characters are not modelled.
\<close>

fun py_str :: "yaml \<Rightarrow> string" and py_repr :: "yaml \<Rightarrow> string" where
  "py_str YNull = ''None''"
| "py_str (YBool b) = (if b then ''True'' else ''False'')"
| "py_str (YInt i) = show_int i"
| "py_str (YFloat r) = r"
| "py_str (YStr s) = s"
| "py_str (YList xs) = ''['' @ join '', '' (map py_repr xs) @ '']''"
| "py_str (YDict kvs) =
     ''{'' @ join '', '' (map (\<lambda>kv. CHR 0x27 # fst kv @ [CHR 0x27] @ '': '' @ py_repr (snd kv)) kvs)
       @ ''}''"
| "py_repr YNull = ''None''"
| "py_repr (YBool b) = (if b then ''True'' else ''False'')"
| "py_repr (YInt i) = show_int i"
| "py_repr (YFloat r) = r"
| "py_repr (YStr s) = CHR 0x27 # s @ [CHR 0x27]"
| "py_repr (YList xs) = ''['' @ join '', '' (map py_repr xs) @ '']''"
| "py_repr (YDict kvs) =
     ''{'' @ join '', '' (map (\<lambda>kv. CHR 0x27 # fst kv @ [CHR 0x27] @ '': '' @ py_repr (snd kv)) kvs)
       @ ''}''"

text \<open>\<^verbatim>\<open>u in s\<close> on strings, and \<^verbatim>\<open>s.lower()\<close> on ASCII.\<close>

fun is_in :: "string \<Rightarrow> string \<Rightarrow> bool" where
  "is_in u [] = (u = [])"
| "is_in u (c # cs) = (take (length u) (c # cs) = u \<or> is_in u cs)"

definition lower :: "string \<Rightarrow> string" where
  "lower s = map (\<lambda>c. if 65 \<le> (of_char c :: nat) \<and> (of_char c :: nat) \<le> 90
                        then char_of (of_char c + 32 :: nat) else c) s"

subsection \<open>The library function \<^verbatim>\<open>mergedeep.merge\<close>\<close>

text \<open>
  \<^verbatim>\<open>merge(destination, source)\<close> with the default strategy, as the library defines it: for
  every key of the source, two mappings are merged recursively, any other value of the
  source replaces the one of the destination, and a new key is added at the end. The library
  writes into the destination object and returns it; the model returns the destination as
  written.
\<close>

fun deepmerge :: "(string \<times> yaml) list \<Rightarrow> (string \<times> yaml) list \<Rightarrow> (string \<times> yaml) list" where
  "deepmerge dst [] = dst"
| "deepmerge dst ((key, YDict src_sub) # src) =
     deepmerge
       (case map_of dst key of
          Some (YDict dst_sub) \<Rightarrow> dict_set key (YDict (deepmerge dst_sub src_sub)) dst
        | _ \<Rightarrow> dict_set key (YDict src_sub) dst)
       src"
| "deepmerge dst ((key, v) # src) = deepmerge (dict_set key v dst) src"

definition merge :: "yaml \<Rightarrow> yaml \<Rightarrow> error + yaml" where
  "merge destination source =
     (case (destination, source) of
        (YDict dst, YDict src) \<Rightarrow> Inr (YDict (deepmerge dst src))
      | _ \<Rightarrow> Inl TypeError)"

subsection \<open>The collaborators of the generator\<close>

text \<open>
  What the generator takes from libraries and from the host: \<open>str_format t d\<close> is
  \<^verbatim>\<open>t.format(**d)\<close>, which raises when a placeholder has no value; \<open>json_dumps\<close> is
  \<^verbatim>\<open>json.dumps\<close>; \<open>now\<close> is \<^verbatim>\<open>datetime.now().strftime("%Y.%m.%d-%H:%M")\<close>;
  \<open>dmidecode item\<close> is the text that \<^verbatim>\<open>subprocess.check_output\<close> returns for the
  \<^verbatim>\<open>dmidecode\<close> pipeline of line 128.
\<close>

record gen_env =
  str_format :: "string \<Rightarrow> (string \<times> yaml) list \<Rightarrow> error + string"
  json_dumps :: "(string \<times> yaml) list \<Rightarrow> string"
  now :: string
  dmidecode :: "string \<Rightarrow> string"

subsection \<open>\<^verbatim>\<open>generate_docker\<close>\<close>

text \<open>Lines 126 to 136: one entry of \<^verbatim>\<open>memory_info\<close>.\<close>

definition memory_unit :: "string \<Rightarrow> string \<times> string \<Rightarrow> string \<times> string" where
  "memory_unit unit kv =
     (if is_in unit (snd kv)
      then (fst kv @ ''_'' @ replace_str unit ''/'' ''_per_'',
            strip (replace_str (snd kv) unit ''''))
      else kv)"

definition memory_entry :: "gen_env \<Rightarrow> string \<Rightarrow> string" where
  "memory_entry env item =
     (let value = replace_str (strip (dmidecode env item)) (item @ '': '') '''';
          key = ''mem_info_'' @ replace_str (lower item) '' '' ''_'';
          kv = fold memory_unit [''MB'', ''MT/s''] (key, value)
      in fst kv @ ''='' @ snd kv)"

definition memory_items :: "string list" where
  "memory_items =
     [''Size'', ''Speed'', ''Manufacturer'', ''Type'', ''Configured Memory Speed'', ''Form Factor'']"

text \<open>Line 121.\<close>

definition run_name_of ::
  "string \<Rightarrow> string \<Rightarrow> string \<Rightarrow> (string \<times> yaml) list \<Rightarrow> error + string" where
  "run_name_of bench_name sys_name capability cmd_replacements =
     and_then (getitem (YDict cmd_replacements) ''batch-size'') (\<lambda>b.
     and_then (getitem (YDict cmd_replacements) ''epochs'') (\<lambda>e.
     and_then (getitem (YDict cmd_replacements) ''learning-rate'') (\<lambda>lr.
       Inr (bench_name @ ''-'' @ sys_name @ ''-'' @ capability
              @ ''-B'' @ py_str b @ ''xE'' @ py_str e @ ''xLR'' @ py_str lr))))"

text \<open>Lines 106 to 109: the preparation commands, each followed by \<^verbatim>\<open>" && "\<close>.\<close>

fun preparations :: "gen_env \<Rightarrow> (string \<times> yaml) list \<Rightarrow> yaml list \<Rightarrow> string \<Rightarrow> error + string"
where
  "preparations env cmd_replacements [] benchmark_cmd = Inr benchmark_cmd"
| "preparations env cmd_replacements (preparation # rest) benchmark_cmd =
     (case preparation of
        YStr t \<Rightarrow>
          and_then (str_format env t cmd_replacements) (\<lambda>s.
            preparations env cmd_replacements rest (benchmark_cmd @ s @ '' && ''))
      | _ \<Rightarrow> Inl AttributeError)"

text \<open>Lines 138 to 142: the tags and the \<^verbatim>\<open>wandb\<close> part of the command.\<close>

definition str_items :: "yaml list \<Rightarrow> error + string list" where
  "str_items xs =
     (if \<forall>x\<in>set xs. (case x of YStr s \<Rightarrow> True | _ \<Rightarrow> False)
      then Inr (map (\<lambda>x. case x of YStr s \<Rightarrow> s | _ \<Rightarrow> []) xs)
      else Inl TypeError)"

definition wandb_part ::
  "gen_env \<Rightarrow> yaml \<Rightarrow> string \<Rightarrow> (string \<times> yaml) list \<Rightarrow> error + string" where
  "wandb_part env wandb_config run_name cmd_replacements =
     (let WANDB_NOTES = json_dumps env cmd_replacements;
          tags = join '','' (map (memory_entry env) memory_items)
      in and_then (getitem wandb_config ''active'') (\<lambda>active.
         if truthy active
         then and_then (getitem wandb_config ''additional-tags'') (\<lambda>ats.
              and_then (iter_yaml ats) (\<lambda>at_list.
              and_then (str_items at_list) (\<lambda>at_strs.
              and_then (getitem wandb_config ''key'') (\<lambda>key.
              and_then (getitem wandb_config ''user'') (\<lambda>user.
              and_then (getitem wandb_config ''project'') (\<lambda>project.
                Inr (''-e WANDB_API_KEY='' @ py_str key
                     @ '' -e WANDB_NAME='' @ [CHR 0x27] @ run_name @ ''-'' @ now env @ [CHR 0x27]
                     @ '' -e WANDB_TAGS='' @ [CHR 0x27] @ tags @ '','' @ join '','' at_strs
                     @ [CHR 0x27]
                     @ '' -e WANDB_NOTES='' @ [CHR 0x27] @ WANDB_NOTES @ [CHR 0x27]
                     @ '' -e WANDB_ENTITY='' @ py_str user
                     @ '' -e WANDB_PROJECT='' @ py_str project)))))))
         else Inr []))"

text \<open>Line 144.\<close>

definition docker_run_cmd ::
  "string \<Rightarrow> string \<Rightarrow> string \<Rightarrow> string \<Rightarrow> string \<Rightarrow> string \<Rightarrow> string \<Rightarrow> string \<Rightarrow> string
     \<Rightarrow> string" where
  "docker_run_cmd run_mode run_name wandb mounts visible_devices workdir capability
       bench_name benchmark_cmd =
     ''docker run -'' @ run_mode @ '' --rm --ipc=host --name='' @ run_name @ '' '' @ wandb
       @ '' '' @ mounts @ '' --gpus '' @ [CHR 0x27] @ ''device='' @ visible_devices @ [CHR 0x27]
       @ '' -w '' @ workdir @ '' -e PRECISION='' @ capability @ '' '' @ bench_name
       @ '' bash -c '' @ [CHR 0x27] @ benchmark_cmd @ [CHR 0x27]"

text \<open>Lines 96 to 104: the values that fill the placeholders.\<close>

definition cmd_replacements_of ::
  "string \<Rightarrow> string \<Rightarrow> string \<Rightarrow> string \<Rightarrow> nat \<Rightarrow> (string \<times> yaml) list
     \<Rightarrow> (string \<times> yaml) list" where
  "cmd_replacements_of sys_name bench_name capability visible_devices nb_cuda_devices params =
     dict_union params
       [(''NVIDIA_VISIBLE_DEVICES'', YStr visible_devices),
        (''NB_CUDA_DEVICES'', YInt (int nb_cuda_devices)),
        (''SYSTEM_NAME'', YStr sys_name),
        (''BENCHMARK_NAME'', YStr bench_name),
        (''CAPABILITY'', YStr capability)]"

text \<open>Lines 106 to 109.\<close>

definition prepared_cmd :: "gen_env \<Rightarrow> yaml \<Rightarrow> (string \<times> yaml) list \<Rightarrow> error + string" where
  "prepared_cmd env benchmark_config cmd_replacements =
     (case benchmark_config of
        YDict kvs \<Rightarrow>
          (case map_of kvs ''preparation'' of
             None \<Rightarrow> Inr []
           | Some preps \<Rightarrow>
               and_then (iter_yaml preps) (\<lambda>ps. preparations env cmd_replacements ps []))
      | _ \<Rightarrow> Inl TypeError)"

text \<open>Lines 116 to 119.\<close>

definition run_mode_of :: "bool \<Rightarrow> yaml \<Rightarrow> yaml \<Rightarrow> error + string" where
  "run_mode_of interactive_mode docker executable =
     (if interactive_mode
      then and_then (getitem docker ''path'') (\<lambda>path.
           and_then (getitem executable ''path'') (\<lambda>exe_path.
             Inr (''it -v $PWD/'' @ py_str path @ '':'' @ py_str exe_path)))
      else Inr ''d'')"

text \<open>Lines 114 to 154: the row of a capability for which the benchmark has a command.\<close>

definition experiment_row ::
  "gen_env \<Rightarrow> string \<Rightarrow> string \<Rightarrow> yaml \<Rightarrow> bool \<Rightarrow> string \<Rightarrow> string \<Rightarrow> string
     \<Rightarrow> (string \<times> yaml) list \<Rightarrow> string \<Rightarrow> yaml \<Rightarrow> yaml \<Rightarrow> yaml \<Rightarrow> error + job_record" where
  "experiment_row env sys_name bench_name wandb_config interactive_mode visible_devices mounts
       capability cmd_replacements prepared docker executable commands =
     and_then (getitem commands capability) (\<lambda>template.
     and_then (case template of
                 YStr t \<Rightarrow> str_format env t cmd_replacements
               | _ \<Rightarrow> Inl AttributeError) (\<lambda>formatted.
     and_then (run_mode_of interactive_mode docker executable) (\<lambda>run_mode.
     and_then (run_name_of bench_name sys_name capability cmd_replacements) (\<lambda>run_name.
     and_then (wandb_part env wandb_config run_name cmd_replacements) (\<lambda>wandb.
     and_then (getitem executable ''path'') (\<lambda>workdir.
       Inr \<lparr>benchmark_name = bench_name,
            system_name = sys_name,
            devices = visible_devices,
            docker_name = bench_name @ ''-'' @ sys_name @ ''-'' @ capability,
            status = PENDING,
            cmd = docker_run_cmd run_mode run_name wandb mounts visible_devices
                    (py_str workdir) capability bench_name (prepared @ formatted)\<rparr>))))))"

text \<open>
  Lines 94 to 154: the body of the loop over the capabilities of the system, for an active
  capability. The result is the row appended to \<^verbatim>\<open>experiments\<close>, or nothing when the
  benchmark has no command for the capability.
\<close>

definition experiment_of ::
  "gen_env \<Rightarrow> string \<Rightarrow> string \<Rightarrow> yaml \<Rightarrow> yaml \<Rightarrow> bool \<Rightarrow> string \<Rightarrow> nat \<Rightarrow> string
     \<Rightarrow> string \<Rightarrow> error + job_record option" where
  "experiment_of env sys_name bench_name benchmark_config wandb_config interactive_mode
       visible_devices nb_cuda_devices mounts capability =
     and_then (getitem benchmark_config ''params'') (\<lambda>params.
     and_then (getitem params ''batch-size'') (\<lambda>printed_batch_size.
     and_then (getitem params ''epochs'') (\<lambda>printed_epochs.
     and_then (star_items params) (\<lambda>params_items.
     let cmd_replacements =
           cmd_replacements_of sys_name bench_name capability visible_devices nb_cuda_devices
             params_items
     in
     and_then (prepared_cmd env benchmark_config cmd_replacements) (\<lambda>prepared.
     and_then (getitem benchmark_config ''docker'') (\<lambda>docker.
     and_then (getitem docker ''executable'') (\<lambda>executable.
     and_then (getitem executable ''commands'') (\<lambda>commands.
     and_then (items commands) (\<lambda>command_items.
       if capability \<notin> fst ` set command_items then Inr None
       else and_then
              (experiment_row env sys_name bench_name wandb_config interactive_mode
                 visible_devices mounts capability cmd_replacements prepared docker executable
                 commands)
              (\<lambda>row. Inr (Some row)))))))))))"

text \<open>Lines 87 to 89: the mount options.\<close>

fun mounts_of :: "yaml \<Rightarrow> (string \<times> yaml) list \<Rightarrow> string \<Rightarrow> error + string" where
  "mounts_of data_config [] mounts = Inr mounts"
| "mounts_of data_config ((data_source, mount_point) # rest) mounts =
     and_then (getitem data_config data_source) (\<lambda>host_path.
       mounts_of data_config rest
         (mounts @ ''-v '' @ py_str host_path @ '':'' @ py_str mount_point @ '' ''))"

text \<open>Lines 91 to 154: the loop over the capabilities of the system.\<close>

fun capabilities_loop ::
  "gen_env \<Rightarrow> string \<Rightarrow> string \<Rightarrow> yaml \<Rightarrow> yaml \<Rightarrow> bool \<Rightarrow> string \<Rightarrow> nat \<Rightarrow> string
     \<Rightarrow> (string \<times> yaml) list \<Rightarrow> job_record list \<Rightarrow> error + job_record list" where
  "capabilities_loop env sys_name bench_name benchmark_config wandb_config interactive_mode
       visible_devices nb_cuda_devices mounts [] experiments = Inr experiments"
| "capabilities_loop env sys_name bench_name benchmark_config wandb_config interactive_mode
       visible_devices nb_cuda_devices mounts ((capability, is_active) # rest) experiments =
     (if truthy is_active
      then and_then
             (experiment_of env sys_name bench_name benchmark_config wandb_config
                interactive_mode visible_devices nb_cuda_devices mounts capability)
             (\<lambda>row. capabilities_loop env sys_name bench_name benchmark_config wandb_config
                      interactive_mode visible_devices nb_cuda_devices mounts rest
                      (case row of None \<Rightarrow> experiments | Some r \<Rightarrow> experiments @ [r]))
      else capabilities_loop env sys_name bench_name benchmark_config wandb_config
             interactive_mode visible_devices nb_cuda_devices mounts rest experiments)"

text \<open>
  \<^verbatim>\<open>generate_docker\<close>, lines 80 to 160. The result is the list \<^verbatim>\<open>experiments\<close> that the last
  lines append to the tracking file; when an error is raised nothing is appended. The
  device field of a row is the text that \<^verbatim>\<open>run_cycle\<close> reads back from the file.
\<close>

definition generate_docker ::
  "gen_env \<Rightarrow> string \<Rightarrow> yaml \<Rightarrow> string \<Rightarrow> yaml \<Rightarrow> yaml \<Rightarrow> yaml \<Rightarrow> bool
     \<Rightarrow> error + job_record list" where
  "generate_docker env sys_name system_config bench_name benchmark_config data_config
       wandb_config interactive_mode =
     and_then (getitem system_config ''devices-ids'') (\<lambda>ids.
     and_then (iter_yaml ids) (\<lambda>id_list.
     let nb_cuda_devices = length id_list;
         visible_devices = join '','' (map py_str id_list)
     in
     and_then (getitem benchmark_config ''docker'') (\<lambda>docker.
     and_then (getitem docker ''mounts'') (\<lambda>mount_config.
     and_then (items mount_config) (\<lambda>mount_items.
     and_then (mounts_of data_config mount_items []) (\<lambda>mounts.
     and_then (getitem system_config ''compute-capabilities'') (\<lambda>capabilities.
     and_then (items capabilities) (\<lambda>capability_items.
       capabilities_loop env sys_name bench_name benchmark_config wandb_config
         interactive_mode visible_devices nb_cuda_devices mounts capability_items []))))))))"

subsection \<open>\<^verbatim>\<open>generate_all_benchmarks\<close>\<close>

text \<open>
  The state of a generation: the object \<^verbatim>\<open>templates_ref\<close>, which is the value of
  \<^verbatim>\<open>config['benchmarks-template']\<close> itself and which \<^verbatim>\<open>merge\<close> writes into, the rows of the
  tracking file, and the commands given to \<^verbatim>\<open>os.system\<close> by \<^verbatim>\<open>build_docker\<close>.
\<close>

record gen_state =
  templates_ref :: yaml
  tracking_file :: "job_record list"
  builds :: "string list"

text \<open>\<^verbatim>\<open>build_docker\<close>, lines 75 to 78: the command given to \<^verbatim>\<open>os.system\<close>.\<close>

definition build_docker :: "yaml \<Rightarrow> string \<Rightarrow> error + string" where
  "build_docker docker_config tag =
     and_then (getitem docker_config ''path'') (\<lambda>path.
     and_then (getitem docker_config ''dockerfile'') (\<lambda>dockerfile.
       Inr (''cd '' @ py_str path @ '' && docker build -t '' @ tag @ '' -f ''
              @ py_str dockerfile @ '' .'')))"

text \<open>The star arguments of line 64: every value of \<^verbatim>\<open>params\<close> is read as a sequence.\<close>

fun axes_of :: "(string \<times> yaml) list \<Rightarrow> error + (string \<times> yaml list) list" where
  "axes_of [] = Inr []"
| "axes_of ((k, v) # kvs) =
     and_then (iter_yaml v) (\<lambda>xs. and_then (axes_of kvs) (\<lambda>rest. Inr ((k, xs) # rest)))"

text \<open>
  Lines 66 to 71: the loop over the parameter assignments. Each call of
  \<^verbatim>\<open>generate_docker\<close> appends its rows to the file; an error comes with the state reached.
\<close>

fun params_loop ::
  "gen_env \<Rightarrow> yaml \<Rightarrow> bool \<Rightarrow> string \<Rightarrow> yaml \<Rightarrow> string \<Rightarrow> (string \<times> yaml) list
     \<Rightarrow> (string \<times> yaml) list list \<Rightarrow> gen_state \<Rightarrow> (error \<times> gen_state) + gen_state" where
  "params_loop env config interactive_mode sys_name system_config bench_name
       this_benchmark_config [] st = Inr st"
| "params_loop env config interactive_mode sys_name system_config bench_name
       this_benchmark_config (benchmark_params # rest) st =
     (let current_benchmark_config =
            YDict (dict_set ''params'' (YDict benchmark_params) this_benchmark_config)
      in case and_then (getitem config ''data'') (\<lambda>data_config.
              and_then (getitem config ''wandb'') (\<lambda>wandb_config.
                generate_docker env sys_name system_config bench_name
                  current_benchmark_config data_config wandb_config interactive_mode)) of
           Inl e \<Rightarrow> Inl (e, st)
         | Inr experiments \<Rightarrow>
             params_loop env config interactive_mode sys_name system_config bench_name
               this_benchmark_config rest
               (st\<lparr>tracking_file := tracking_file st @ experiments\<rparr>))"

text \<open>
  Lines 53 to 73: one benchmark on one system. Line 55 merges the overrides of the
  benchmark into the template object of the configuration, and line 56 goes on with that
  object.
\<close>

definition merged_template :: "yaml \<Rightarrow> yaml \<Rightarrow> error + string \<times> yaml" where
  "merged_template templates benchmark_config =
     and_then (getitem benchmark_config ''benchmark-template'') (\<lambda>template_name.
     case template_name of
       YStr name \<Rightarrow>
         and_then (getitem templates name) (\<lambda>benchmark_template.
         and_then (merge benchmark_template benchmark_config) (\<lambda>merged.
           Inr (name, merged)))
     | _ \<Rightarrow> Inl TypeError)"

definition benchmark_step ::
  "gen_env \<Rightarrow> yaml \<Rightarrow> bool \<Rightarrow> string \<Rightarrow> yaml \<Rightarrow> string \<times> yaml \<Rightarrow> gen_state
     \<Rightarrow> (error \<times> gen_state) + gen_state" where
  "benchmark_step env config interactive_mode sys_name system_config benchmark st =
     (case merged_template (templates_ref st) (snd benchmark) of
        Inl e \<Rightarrow> Inl (e, st)
      | Inr (name, this_benchmark_config) \<Rightarrow>
          (let st1 = st\<lparr>templates_ref :=
                 (case templates_ref st of
                    YDict kvs \<Rightarrow> YDict (dict_set name this_benchmark_config kvs)
                  | other \<Rightarrow> other)\<rparr>
           in case getitem this_benchmark_config ''active'' of
                Inl e \<Rightarrow> Inl (e, st1)
              | Inr active \<Rightarrow>
                  if truthy active
                  then (case and_then (getitem this_benchmark_config ''docker'')
                               (\<lambda>docker. build_docker docker (fst benchmark)) of
                          Inl e \<Rightarrow> Inl (e, st1)
                        | Inr build_cmd \<Rightarrow>
                            (let st2 = st1\<lparr>builds := builds st1 @ [build_cmd]\<rparr>
                             in case and_then (getitem this_benchmark_config ''params'')
                                       (\<lambda>params. and_then (star_items params) axes_of) of
                                  Inl e \<Rightarrow> Inl (e, st2)
                                | Inr axes \<Rightarrow>
                                    params_loop env config interactive_mode sys_name
                                      system_config (fst benchmark)
                                      (case this_benchmark_config of
                                         YDict kvs \<Rightarrow> kvs | _ \<Rightarrow> [])
                                      (product_dict axes) st2))
                  else Inr st1))"

fun benchmarks_loop ::
  "gen_env \<Rightarrow> yaml \<Rightarrow> bool \<Rightarrow> string \<Rightarrow> yaml \<Rightarrow> (string \<times> yaml) list \<Rightarrow> gen_state
     \<Rightarrow> (error \<times> gen_state) + gen_state" where
  "benchmarks_loop env config interactive_mode sys_name system_config [] st = Inr st"
| "benchmarks_loop env config interactive_mode sys_name system_config (benchmark # rest) st =
     (case benchmark_step env config interactive_mode sys_name system_config benchmark st of
        Inl e \<Rightarrow> Inl e
      | Inr st1 \<Rightarrow>
          benchmarks_loop env config interactive_mode sys_name system_config rest st1)"

fun systems_loop ::
  "gen_env \<Rightarrow> yaml \<Rightarrow> bool \<Rightarrow> (string \<times> yaml) list \<Rightarrow> gen_state
     \<Rightarrow> (error \<times> gen_state) + gen_state" where
  "systems_loop env config interactive_mode [] st = Inr st"
| "systems_loop env config interactive_mode ((sys_name, system_config) # rest) st =
     (case getitem system_config ''active'' of
        Inl e \<Rightarrow> Inl (e, st)
      | Inr active \<Rightarrow>
          if \<not> truthy active then systems_loop env config interactive_mode rest st
          else (case and_then (getitem config ''benchmarks'') items of
                  Inl e \<Rightarrow> Inl (e, st)
                | Inr benchmarks \<Rightarrow>
                    (case benchmarks_loop env config interactive_mode sys_name system_config
                            benchmarks st of
                       Inl e \<Rightarrow> Inl e
                     | Inr st1 \<Rightarrow> systems_loop env config interactive_mode rest st1)))"

text \<open>
  \<^verbatim>\<open>generate_all_benchmarks\<close>, lines 44 to 73, started on the rows that the tracking file
  holds. Without the key \<^verbatim>\<open>benchmarks-template\<close> line 45 raises before anything is done.
\<close>

definition generate_all_benchmarks ::
  "gen_env \<Rightarrow> yaml \<Rightarrow> bool \<Rightarrow> job_record list \<Rightarrow> (error \<times> gen_state) + gen_state" where
  "generate_all_benchmarks env config interactive_mode tracking =
     (case getitem config ''benchmarks-template'' of
        Inl e \<Rightarrow> Inl (e, \<lparr>templates_ref = YNull, tracking_file = tracking, builds = []\<rparr>)
      | Inr templates \<Rightarrow>
          (let st = \<lparr>templates_ref = templates, tracking_file = tracking, builds = []\<rparr>
           in case and_then (getitem config ''systems'') items of
                Inl e \<Rightarrow> Inl (e, st)
              | Inr systems \<Rightarrow> systems_loop env config interactive_mode systems st))"

text \<open>The state a generation has reached, and the error it raised, if any.\<close>

definition generated :: "(error \<times> gen_state) + gen_state \<Rightarrow> gen_state" where
  "generated res = (case res of Inl (e, st) \<Rightarrow> st | Inr st \<Rightarrow> st)"

definition gen_raised :: "(error \<times> gen_state) + gen_state \<Rightarrow> error option" where
  "gen_raised res = (case res of Inl (e, st) \<Rightarrow> Some e | Inr st \<Rightarrow> None)"

subsection \<open>Example configurations\<close>

text \<open>
  A formatter for templates made of text and plain \<^verbatim>\<open>{name}\<close> fields: a field is replaced by
  the printed value of its name and a name without a value raises \<^verbatim>\<open>KeyError\<close>, as
  \<^verbatim>\<open>str.format\<close> does on such templates.
\<close>

fun plain_format_from :: "(string \<times> yaml) list \<Rightarrow> string option \<Rightarrow> string \<Rightarrow> error + string"
where
  "plain_format_from d None [] = Inr []"
| "plain_format_from d (Some name) [] = Inl (ValueError ''expected } before end of string'')"
| "plain_format_from d None (c # cs) =
     (if c = CHR ''{'' then plain_format_from d (Some []) cs
      else and_then (plain_format_from d None cs) (\<lambda>r. Inr (c # r)))"
| "plain_format_from d (Some name) (c # cs) =
     (if c = CHR ''}''
      then (case map_of d name of
              None \<Rightarrow> Inl (KeyError name)
            | Some v \<Rightarrow> and_then (plain_format_from d None cs) (\<lambda>r. Inr (py_str v @ r)))
      else plain_format_from d (Some (name @ [c])) cs)"

definition example_env :: gen_env where
  "example_env =
     \<lparr>str_format = (\<lambda>t d. plain_format_from d None t),
      json_dumps = (\<lambda>d. ''{}''),
      now = ''2024.01.01-00:00'',
      dmidecode = (\<lambda>item. item @ '': unknown'')\<rparr>"

text \<open>
  One system with the device 0 and one enabled capability; one template with the given
  parameter axes; the benchmarks given, each naming the template.
\<close>

definition example_template :: "(string \<times> yaml) list \<Rightarrow> yaml" where
  "example_template params =
     YDict [(''active'', YBool True),
            (''docker'', YDict [(''path'', YStr ''bench''),
                               (''dockerfile'', YStr ''Dockerfile''),
                               (''mounts'', YDict []),
                               (''executable'',
                                YDict [(''path'', YStr ''/work''),
                                       (''commands'',
                                        YDict [(''fp16'', YStr ''run.sh {batch-size} {epochs}'')])])]),
            (''params'', YDict params)]"

definition example_config :: "(string \<times> yaml) list \<Rightarrow> (string \<times> yaml) list \<Rightarrow> yaml" where
  "example_config params benchmarks =
     YDict [(''benchmarks-template'', YDict [(''tmpl'', example_template params)]),
            (''systems'',
             YDict [(''sys'', YDict [(''active'', YBool True),
                                    (''devices-ids'', YList [YInt 0]),
                                    (''compute-capabilities'', YDict [(''fp16'', YBool True)])])]),
            (''benchmarks'', YDict benchmarks),
            (''data'', YDict []),
            (''wandb'', YDict [(''active'', YBool False)])]"

definition scenario_a_axes :: "(string \<times> yaml) list" where
  "scenario_a_axes =
     [(''batch-size'', YList [YInt 32, YInt 64]), (''epochs'', YList [YInt 1])]"

definition with_learning_rate :: "(string \<times> yaml) list" where
  "with_learning_rate = scenario_a_axes @ [(''learning-rate'', YList [YFloat ''0.1''])]"


definition two_benchmarks :: "(string \<times> yaml) list" where
  "two_benchmarks =
     [(''b1'', YDict [(''benchmark-template'', YStr ''tmpl''),
                     (''params'', YDict [(''batch-size'', YList [YInt 8])])]),
      (''b2'', YDict [(''benchmark-template'', YStr ''tmpl'')])]"

definition second_benchmark_alone :: "(string \<times> yaml) list" where
  "second_benchmark_alone = [(''b2'', YDict [(''benchmark-template'', YStr ''tmpl'')])]"

definition example_system :: yaml where
  "example_system =
     YDict [(''active'', YBool True), (''devices-ids'', YList [YInt 0]),
            (''compute-capabilities'', YDict [(''fp16'', YBool True)])]"

definition example_job :: yaml where
  "example_job =
     (case example_template
             [(''batch-size'', YInt 32), (''epochs'', YInt 1), (''learning-rate'', YFloat ''0.1'')]
      of YDict kvs \<Rightarrow> YDict kvs | other \<Rightarrow> other)"

definition example_rows :: "job_record list" where
  "example_rows =
     (case generate_docker example_env ''sys'' example_system ''b'' example_job (YDict [])
             (YDict [(''active'', YBool False)]) False of
        Inl e \<Rightarrow> [] | Inr rows \<Rightarrow> rows)"

definition busy0 :: "nat \<Rightarrow> (int \<times> nat) list" where
  "busy0 k = [(0, 1)]"

text \<open>\<^verbatim>\<open>v[k1][k2]...\<close>\<close>

fun lookup_path :: "yaml \<Rightarrow> string list \<Rightarrow> error + yaml" where
  "lookup_path v [] = Inr v"
| "lookup_path v (k # ks) = and_then (getitem v k) (\<lambda>u. lookup_path u ks)"

subsection \<open>The shape of a generated row\<close>

text \<open>
  What lines 121 to 154 put into the row of a job: the values of the three parameters that
  line 121 reads, the fields of the row, and the command of line 144 with the run name of
  line 121.
\<close>

definition row_of_job :: "string \<Rightarrow> string \<Rightarrow> yaml \<Rightarrow> job_record \<Rightarrow> bool" where
  "row_of_job bench sys benchmark_config r =
     (\<exists>params cap b e lr run_mode wandb mounts workdir benchmark_cmd.
        getitem benchmark_config ''params'' = Inr params \<and>
        getitem params ''batch-size'' = Inr b \<and>
        getitem params ''epochs'' = Inr e \<and>
        getitem params ''learning-rate'' = Inr lr \<and>
        r = \<lparr>benchmark_name = bench, system_name = sys, devices = devices r,
             docker_name = bench @ ''-'' @ sys @ ''-'' @ cap, status = PENDING,
             cmd = docker_run_cmd run_mode
                     (bench @ ''-'' @ sys @ ''-'' @ cap
                        @ ''-B'' @ py_str b @ ''xE'' @ py_str e @ ''xLR'' @ py_str lr)
                     wandb mounts (devices r) workdir cap bench benchmark_cmd\<rparr>)"


section \<open>Properties of the dispatcher\<close>

subsection \<open>Marking rows\<close>

lemma length_mark [simp]: "length (mark n s rows) = length rows"
  by (simp add: mark_def)

lemma mark_idem: "mark c s (mark c s rows) = mark c s rows"
  by (simp add: mark_def)

lemma mark_nth:
  "i < length rows \<Longrightarrow>
     mark n s rows ! i = (if docker_name (rows ! i) = n then (rows ! i)\<lparr>status := s\<rparr> else rows ! i)"
  by (simp add: mark_def)

lemma mark_live_map:
  "mark_live names rows =
     map (\<lambda>r. if docker_name r \<in> set names then r\<lparr>status := RUNNING\<rparr> else r) rows"
  unfolding mark_live_def
proof (induction names arbitrary: rows)
  case Nil
  then show ?case by simp
next
  case (Cons n ns)
  show ?case by (simp add: Cons.IH) (auto simp: mark_def)
qed

lemma mark_live_Nil [simp]: "mark_live [] rows = rows"
  by (simp add: mark_live_def)

lemma mark_live_nth:
  "i < length rows \<Longrightarrow>
     mark_live names rows ! i =
       (if docker_name (rows ! i) \<in> set names then (rows ! i)\<lparr>status := RUNNING\<rparr> else rows ! i)"
  by (simp add: mark_live_map)

lemma length_mark_live [simp]: "length (mark_live names rows) = length rows"
  by (simp add: mark_live_map)

subsection \<open>The eligibility count\<close>

lemma count_processes_Inr:
  "count_processes d gs nb = Inr n \<longleftrightarrow>
     (\<exists>ks. map py_int gs = map Some ks \<and> set ks \<subseteq> dom d \<and>
           n = nb + sum_list (map (\<lambda>k. the (d k)) ks))"
proof (induction gs arbitrary: nb)
  case Nil
  then show ?case by auto
next
  case (Cons g gs)
  let ?R = "\<exists>ks. map py_int (g # gs) = map Some ks \<and> set ks \<subseteq> dom d \<and>
           n = nb + sum_list (map (\<lambda>k. the (d k)) ks)"
  have shape: "\<exists>k ks'. ks = k # ks' \<and> py_int g = Some k \<and> map py_int gs = map Some ks'"
    if "map py_int (g # gs) = map Some ks" for ks
    using that by (cases ks) simp_all
  show ?case
  proof (cases "py_int g")
    case None
    have "\<not> ?R" using shape None by fastforce
    then show ?thesis using None by simp
  next
    case (Some k)
    show ?thesis
    proof (cases "d k")
      case None
      have "\<not> ?R"
      proof
        assume ?R
        then obtain ks where ks: "map py_int (g # gs) = map Some ks" "set ks \<subseteq> dom d"
          by blast
        from shape [OF ks(1)] Some obtain ks' where "ks = k # ks'" by auto
        then show False using ks(2) None by auto
      qed
      then show ?thesis using Some None by simp
    next
      case (Some m)
      have step: "count_processes d (g # gs) nb = count_processes d gs (nb + m)"
        using \<open>py_int g = Some k\<close> Some by simp
      show ?thesis
      proof
        assume "count_processes d (g # gs) nb = Inr n"
        then obtain ks' where ks': "map py_int gs = map Some ks'" "set ks' \<subseteq> dom d"
            "n = nb + m + sum_list (map (\<lambda>k. the (d k)) ks')"
          using step Cons.IH [of "nb + m"] by auto
        have "map py_int (g # gs) = map Some (k # ks')" "set (k # ks') \<subseteq> dom d"
             "n = nb + sum_list (map (\<lambda>k. the (d k)) (k # ks'))"
          using ks' \<open>py_int g = Some k\<close> Some by auto
        then show ?R by blast
      next
        assume ?R
        then obtain ks where ks: "map py_int (g # gs) = map Some ks" "set ks \<subseteq> dom d"
            "n = nb + sum_list (map (\<lambda>k. the (d k)) ks)"
          by blast
        from shape [OF ks(1)] \<open>py_int g = Some k\<close>
        obtain ks' where k: "ks = k # ks'" "map py_int gs = map Some ks'" by auto
        have "set ks' \<subseteq> dom d" "n = nb + m + sum_list (map (\<lambda>k. the (d k)) ks')"
          using ks(2,3) k(1) Some by auto
        then have "count_processes d gs (nb + m) = Inr n"
          using k(2) Cons.IH [of "nb + m"] by blast
        then show "count_processes d (g # gs) nb = Inr n" using step by simp
      qed
    qed
  qed
qed

lemma count_processes_idle:
  "count_processes d gs 0 = Inr 0 \<longleftrightarrow>
     (\<exists>ks. map py_int gs = map Some ks \<and> set ks \<subseteq> dom d \<and> (\<Sum>k\<in>set ks. the (d k)) = 0)"
proof -
  have "sum_list (map (\<lambda>k. the (d k)) ks) = 0 \<longleftrightarrow> (\<Sum>k\<in>set ks. the (d k)) = 0" for ks
    by (induction ks) auto
  then show ?thesis
    by (simp add: count_processes_Inr)
qed

lemma devices_idle_count:
  "devices_idle d devs \<longleftrightarrow> count_processes d (split_on CHR '','' devs) 0 = Inr 0"
  by (simp add: devices_idle_def count_processes_idle)

subsection \<open>The row loop, row by row\<close>

lemma run_cycle_loop:
  "run_cycle w im sc tracking =
     rows_loop w im (last_container (containers_list w))
       (enumerate 0 (mark_live (containers_list w) tracking)) (start_state w tracking)"
  by (simp add: run_cycle_def start_state_def Let_def)

lemma rows_loop_append:
  "rows_loop w im c (xs @ ys) st =
     (case rows_loop w im c xs st of Inl e \<Rightarrow> Inl e | Inr st1 \<Rightarrow> rows_loop w im c ys st1)"
  by (induction xs arbitrary: st) (auto split: sum.splits)

lemma enumerate_split:
  assumes "i < length rows"
  shows "enumerate 0 rows =
           enumerate 0 (take i rows) @ (i, rows ! i) # enumerate (Suc i) (drop (Suc i) rows)"
proof -
  have "rows = take i rows @ rows ! i # drop (Suc i) rows"
    using assms by (simp add: id_take_nth_drop)
  then have "enumerate 0 rows = enumerate 0 (take i rows @ rows ! i # drop (Suc i) rows)"
    by simp
  also have "\<dots> = enumerate 0 (take i rows) @ (i, rows ! i) # enumerate (Suc i) (drop (Suc i) rows)"
    using assms by (simp add: enumerate_append_eq min_def)
  finally show ?thesis .
qed

lemma rows_loop_at:
  assumes "i < length rows"
  shows "rows_loop w im c (enumerate 0 rows) st =
     (case rows_loop w im c (enumerate 0 (take i rows)) st of
        Inl e \<Rightarrow> Inl e
      | Inr st1 \<Rightarrow>
          (case row_step w im c (i, rows ! i) st1 of
             Inl e \<Rightarrow> Inl e
           | Inr st2 \<Rightarrow> rows_loop w im c (enumerate (Suc i) (drop (Suc i) rows)) st2))"
  by (subst enumerate_split [OF assms]) (simp add: rows_loop_append split: sum.splits)

lemma filter_enumerate_pending:
  "length (filter (\<lambda>ir. status (snd ir) = PENDING) (enumerate n rows)) =
     length (filter (\<lambda>r. status r = PENDING) rows)"
  by (induction rows arbitrary: n) auto

lemma fst_set_enumerate: "fst ` set (enumerate n rows) = {n ..< n + length rows}"
  by (induction rows arbitrary: n) auto

lemma row_step_launched:
  "\<exists>ext. launched (reached (row_step w im c (i, r) st)) = launched st @ ext \<and> fst ` set ext \<subseteq> {i}"
  by (auto simp: row_step_def stop_stale_def start_pending_def reached_def Let_def split: sum.splits option.splits)

lemma rows_loop_launched:
  "\<exists>ext. launched (reached (rows_loop w im c irs st)) = launched st @ ext \<and> fst ` set ext \<subseteq> fst ` set irs"
proof (induction irs arbitrary: st)
  case Nil
  then show ?case by (simp add: reached_def)
next
  case (Cons ir irs)
  obtain ext1 where e1: "launched (reached (row_step w im c (fst ir, snd ir) st)) = launched st @ ext1"
      "fst ` set ext1 \<subseteq> {fst ir}"
    using row_step_launched by blast
  show ?case
  proof (cases "row_step w im c ir st")
    case (Inl e)
    then show ?thesis using e1 by (auto simp: reached_def)
  next
    case (Inr st1)
    obtain ext2 where e2: "launched (reached (rows_loop w im c irs st1)) = launched st1 @ ext2"
      "fst ` set ext2 \<subseteq> fst ` set irs"
      using Cons.IH by blast
    have "launched st1 = launched st @ ext1" using e1 Inr by (simp add: reached_def)
    then have "launched (reached (rows_loop w im c (ir # irs) st)) = launched st @ (ext1 @ ext2)"
      using Inr e2 by simp
    moreover have "fst ` set (ext1 @ ext2) \<subseteq> fst ` set (ir # irs)"
      using e1(2) e2(2) by auto
    ultimately show ?thesis by blast
  qed
qed

lemma rows_loop_queries:
  "rows_loop w im c irs st = Inr st1 \<Longrightarrow>
     queries st1 = queries st + length (filter (\<lambda>ir. status (snd ir) = PENDING) irs)"
proof (induction irs arbitrary: st)
  case Nil
  then show ?case by simp
next
  case (Cons ir irs)
  from Cons.prems obtain st2 where s: "row_step w im c ir st = Inr st2"
      "rows_loop w im c irs st2 = Inr st1"
    by (auto split: sum.splits)
  have "queries st2 = queries st + (if status (snd ir) = PENDING then 1 else 0)"
    using s(1)
    by (auto simp: row_step_def stop_stale_def start_pending_def Let_def
             split: sum.splits option.splits if_splits)
  then show ?case using Cons.IH [OF s(2)] by simp
qed

lemma row_step_queries_le:
  "queries st \<le> queries (reached (row_step w im c ir st)) \<and>
   queries (reached (row_step w im c ir st)) \<le> queries st + (if status (snd ir) = PENDING then 1 else 0)"
  by (auto simp: row_step_def stop_stale_def start_pending_def reached_def Let_def
           split: sum.splits option.splits)

lemma row_step_pending:
  assumes "status r = PENDING"
  shows "row_step w im c (i, r) st =
     (case count_processes (gpus_status_dict (new_query w (queries st)))
             (split_on CHR '','' (devices r)) 0 of
        Inl e \<Rightarrow> Inl (e, st\<lparr>queries := queries st + 1\<rparr>)
      | Inr nb \<Rightarrow>
          if nb = 0
          then Inr (st\<lparr>queries := queries st + 1,
                       launched := launched st @
                         [(i, if im then replace_str (cmd r) '' -d '' '' -it '' else cmd r)],
                       slept := slept st + 15\<rparr>)
          else Inr (st\<lparr>queries := queries st + 1\<rparr>))"
  using assms
  by (simp add: row_step_def stop_stale_def start_pending_def Let_def split: sum.splits)

lemma row_step_not_pending:
  "status r \<noteq> PENDING \<Longrightarrow> launched (reached (row_step w im c (i, r) st)) = launched st"
  by (auto simp: row_step_def stop_stale_def start_pending_def reached_def
           split: sum.splits option.splits)

lemma row_step_Inl:
  assumes "row_step w im c (i, r) st1 = Inl (e, st)"
  shows "(e = UnboundLocalError ''container'' \<and> c = None \<and> status r = RUNNING) \<or>
         (status r = PENDING \<and>
          count_processes (gpus_status_dict (new_query w (queries st1)))
            (split_on CHR '','' (devices r)) 0 = Inl e)"
  using assms
  by (auto simp: row_step_def stop_stale_def start_pending_def Let_def
           split: sum.splits option.splits if_splits)

lemma prefix_state:
  assumes "rows_loop w im c (enumerate 0 (take i rows)) st0 = Inr st1" and "i \<le> length rows"
  shows "queries st1 = queries st0 + pending_before rows i"
    and "\<exists>ext. launched st1 = launched st0 @ ext \<and> fst ` set ext \<subseteq> {..< i}"
proof -
  show "queries st1 = queries st0 + pending_before rows i"
    using rows_loop_queries [OF assms(1)]
    by (simp add: filter_enumerate_pending pending_before_def)
  have "fst ` set (enumerate 0 (take i rows)) = {..< i}"
    using assms(2) by (auto simp: fst_set_enumerate min_def)
  then show "\<exists>ext. launched st1 = launched st0 @ ext \<and> fst ` set ext \<subseteq> {..< i}"
    using rows_loop_launched [of w im c "enumerate 0 (take i rows)" st0] assms(1)
    by (simp add: reached_def)
qed

lemma suffix_launched:
  "\<exists>ext. launched (reached (rows_loop w im c (enumerate (Suc i) rs) st)) = launched st @ ext \<and>
         fst ` set ext \<subseteq> {i <..}"
proof -
  have "fst ` set (enumerate (Suc i) rs) \<subseteq> {i <..}"
    by (auto simp: fst_set_enumerate)
  then show ?thesis
    using rows_loop_launched [of w im c "enumerate (Suc i) rs" st] by fastforce
qed

lemma pending_before_append:
  "j \<le> length ys \<Longrightarrow> pending_before (ys @ zs) j = pending_before ys j"
  by (simp add: pending_before_def)

lemma query_dict_append:
  "j \<le> length ys \<Longrightarrow> query_dict w (ys @ zs) j = query_dict w ys j"
  by (simp add: query_dict_def pending_before_append)

subsection \<open>What the loop decides for one row\<close>

lemma loop_decision:
  assumes "rows_loop w im c (enumerate 0 rows) st0 = Inr st'"
      and "i < length rows" and "status (rows ! i) = PENDING"
      and "launched st0 = []" and "queries st0 = 1"
  shows "(\<exists>cm. (i, cm) \<in> set (launched st')) \<longleftrightarrow>
         count_processes (query_dict w rows i) (split_on CHR '','' (devices (rows ! i))) 0 = Inr 0"
proof -
  from assms(1) rows_loop_at [OF assms(2), of w im c st0]
  obtain st1 st2 where
    p: "rows_loop w im c (enumerate 0 (take i rows)) st0 = Inr st1" and
    s: "row_step w im c (i, rows ! i) st1 = Inr st2" and
    r: "rows_loop w im c (enumerate (Suc i) (drop (Suc i) rows)) st2 = Inr st'"
    by (auto split: sum.splits)
  have q1: "queries st1 = 1 + pending_before rows i"
    using prefix_state(1) [OF p] assms(2,5) by simp
  obtain ext1 where e1: "launched st1 = ext1" "fst ` set ext1 \<subseteq> {..< i}"
    using prefix_state(2) [OF p] assms(2,4) by auto
  obtain ext3 where e3: "launched st' = launched st2 @ ext3" "fst ` set ext3 \<subseteq> {i <..}"
    using suffix_launched [of w im c i "drop (Suc i) rows" st2] r by (auto simp: reached_def)
  let ?cnt = "count_processes (query_dict w rows i) (split_on CHR '','' (devices (rows ! i))) 0"
  have i1: "\<not> (\<exists>cm. (i, cm) \<in> set ext1)" using e1(2) by force
  have i3: "\<not> (\<exists>cm. (i, cm) \<in> set ext3)" using e3(2) by force
  from s obtain nb where nb: "?cnt = Inr nb"
    by (auto simp: row_step_pending [OF assms(3)] query_dict_def q1 split: sum.splits)
  show ?thesis
  proof (cases "nb = 0")
    case True
    then have "\<exists>cm. launched st2 = launched st1 @ [(i, cm)]"
      using s nb by (auto simp: row_step_pending [OF assms(3)] query_dict_def q1)
    then show ?thesis using e3(1) nb True by auto
  next
    case False
    then have "launched st2 = launched st1"
      using s nb by (auto simp: row_step_pending [OF assms(3)] query_dict_def q1)
    then show ?thesis using e3(1) e1(1) i1 i3 nb False by auto
  qed
qed

lemma loop_launch_origin:
  assumes "i < length rows" and "launched st0 = []" and "queries st0 = 1"
      and "(i, cm) \<in> set (launched (reached (rows_loop w im c (enumerate 0 rows) st0)))"
  shows "status (rows ! i) = PENDING \<and>
         count_processes (query_dict w rows i) (split_on CHR '','' (devices (rows ! i))) 0 = Inr 0"
proof (cases "rows_loop w im c (enumerate 0 (take i rows)) st0")
  case (Inl a)
  have "fst ` set (enumerate 0 (take i rows)) = {..< i}"
    using assms(1) by (auto simp: fst_set_enumerate min_def)
  then have "fst ` set (launched (reached (rows_loop w im c (enumerate 0 (take i rows)) st0))) \<subseteq> {..< i}"
    using rows_loop_launched [of w im c "enumerate 0 (take i rows)" st0] assms(2) by auto
  moreover have "rows_loop w im c (enumerate 0 rows) st0 = Inl a"
    using Inl rows_loop_at [OF assms(1), of w im c st0] by simp
  ultimately have "i < i" using assms(4) Inl by force
  then show ?thesis by simp
next
  case (Inr st1)
  have q1: "queries st1 = 1 + pending_before rows i"
    using prefix_state(1) [OF Inr] assms(1,3) by simp
  have l1: "fst ` set (launched st1) \<subseteq> {..< i}"
    using prefix_state(2) [OF Inr] assms(1,2) by auto
  then have n1: "(i, cm) \<notin> set (launched st1)" by force
  let ?step = "row_step w im c (i, rows ! i) st1"
  have whole: "rows_loop w im c (enumerate 0 rows) st0 =
      (case ?step of Inl e \<Rightarrow> Inl e
       | Inr st2 \<Rightarrow> rows_loop w im c (enumerate (Suc i) (drop (Suc i) rows)) st2)"
    using Inr rows_loop_at [OF assms(1), of w im c st0] by simp
  have after: "(i, cm) \<in> set (launched (reached ?step))"
  proof (cases ?step)
    case (Inl a)
    then show ?thesis using whole assms(4) by simp
  next
    case (Inr st2)
    obtain ext where e: "launched (reached (rows_loop w im c (enumerate (Suc i) (drop (Suc i) rows)) st2))
        = launched st2 @ ext" "fst ` set ext \<subseteq> {i <..}"
      using suffix_launched by blast
    have "(i, cm) \<notin> set ext" using e(2) by force
    then show ?thesis using whole Inr assms(4) e(1) by (simp add: reached_def)
  qed
  have p: "status (rows ! i) = PENDING"
  proof (rule ccontr)
    assume "status (rows ! i) \<noteq> PENDING"
    then have "launched (reached ?step) = launched st1"
      by (rule row_step_not_pending)
    with after n1 show False by simp
  qed
  have "count_processes (query_dict w rows i) (split_on CHR '','' (devices (rows ! i))) 0 = Inr 0"
    using after n1
    by (auto simp: row_step_pending [OF p] query_dict_def q1 reached_def
             split: sum.splits if_splits)
  with p show ?thesis by simp
qed

lemma loop_abort:
  assumes "i < length rows" and "status (rows ! i) = PENDING"
      and "launched st0 = []" and "queries st0 = 1"
      and "count_processes (query_dict w rows i) (split_on CHR '','' (devices (rows ! i))) 0 = Inl e"
  shows "\<exists>e' st. rows_loop w im c (enumerate 0 rows) st0 = Inl (e', st) \<and>
                 fst ` set (launched st) \<subseteq> {..< i}"
proof (cases "rows_loop w im c (enumerate 0 (take i rows)) st0")
  case (Inl a)
  obtain e' st where a: "a = (e', st)" by (cases a)
  have "fst ` set (enumerate 0 (take i rows)) = {..< i}"
    using assms(1) by (auto simp: fst_set_enumerate min_def)
  then have "fst ` set (launched st) \<subseteq> {..< i}"
    using rows_loop_launched [of w im c "enumerate 0 (take i rows)" st0] Inl a assms(3)
    by (simp add: reached_def)
  then show ?thesis
    using Inl a rows_loop_at [OF assms(1), of w im c st0] by simp
next
  case (Inr st1)
  have q1: "queries st1 = 1 + pending_before rows i"
    using prefix_state(1) [OF Inr] assms(1,4) by simp
  have l1: "fst ` set (launched st1) \<subseteq> {..< i}"
    using prefix_state(2) [OF Inr] assms(1,3) by auto
  have "row_step w im c (i, rows ! i) st1 = Inl (e, st1\<lparr>queries := queries st1 + 1\<rparr>)"
    using assms(5) by (simp add: row_step_pending [OF assms(2)] query_dict_def q1)
  then show ?thesis
    using Inr l1 rows_loop_at [OF assms(1), of w im c st0] by simp
qed

lemma loop_error_origin:
  "rows_loop w im c (enumerate 0 rows) st0 = Inl (e, st) \<Longrightarrow> queries st0 = 1 \<Longrightarrow>
     (e = UnboundLocalError ''container'' \<and> c = None) \<or>
     (\<exists>j<length rows. status (rows ! j) = PENDING \<and>
        count_processes (query_dict w rows j) (split_on CHR '','' (devices (rows ! j))) 0 = Inl e)"
proof (induction rows arbitrary: e st rule: rev_induct)
  case Nil
  then show ?case by simp
next
  case (snoc x xs)
  have at: "rows_loop w im c (enumerate 0 (xs @ [x])) st0 =
      (case rows_loop w im c (enumerate 0 xs) st0 of
         Inl a \<Rightarrow> Inl a
       | Inr st1 \<Rightarrow> (case row_step w im c (length xs, x) st1 of
                       Inl a \<Rightarrow> Inl a | Inr st2 \<Rightarrow> Inr st2))"
    by (simp add: enumerate_append_eq rows_loop_append split: sum.splits)
  show ?case
  proof (cases "rows_loop w im c (enumerate 0 xs) st0")
    case (Inl a)
    then have "rows_loop w im c (enumerate 0 xs) st0 = Inl (e, st)"
      using at snoc.prems(1) by simp
    from snoc.IH [OF this snoc.prems(2)] show ?thesis
    proof
      assume "e = UnboundLocalError ''container'' \<and> c = None"
      then show ?thesis by simp
    next
      assume "\<exists>j<length xs. status (xs ! j) = PENDING \<and>
        count_processes (query_dict w xs j) (split_on CHR '','' (devices (xs ! j))) 0 = Inl e"
      then obtain j where j: "j < length xs" "status (xs ! j) = PENDING"
        "count_processes (query_dict w xs j) (split_on CHR '','' (devices (xs ! j))) 0 = Inl e"
        by blast
      then have "j < length (xs @ [x])" "status ((xs @ [x]) ! j) = PENDING"
        "count_processes (query_dict w (xs @ [x]) j)
           (split_on CHR '','' (devices ((xs @ [x]) ! j))) 0 = Inl e"
        by (simp_all add: nth_append query_dict_append)
      then show ?thesis by blast
    qed
  next
    case (Inr st1)
    have q1: "queries st1 = 1 + pending_before (xs @ [x]) (length xs)"
      using rows_loop_queries [OF Inr] snoc.prems(2)
      by (simp add: filter_enumerate_pending pending_before_def)
    have "row_step w im c (length xs, x) st1 = Inl (e, st)"
      using at Inr snoc.prems(1) by (simp split: sum.splits)
    from row_step_Inl [OF this] show ?thesis
    proof
      assume "e = UnboundLocalError ''container'' \<and> c = None \<and> status x = RUNNING"
      then show ?thesis by simp
    next
      assume "status x = PENDING \<and>
          count_processes (gpus_status_dict (new_query w (queries st1)))
            (split_on CHR '','' (devices x)) 0 = Inl e"
      then have "length xs < length (xs @ [x])" "status ((xs @ [x]) ! length xs) = PENDING"
        "count_processes (query_dict w (xs @ [x]) (length xs))
           (split_on CHR '','' (devices ((xs @ [x]) ! length xs))) 0 = Inl e"
        by (simp_all add: query_dict_def q1)
      then show ?thesis by blast
    qed
  qed
qed

subsection \<open>What the loop does to the data frame\<close>

lemma row_step_df:
  "df (reached (row_step w im c ir st)) = df st \<or>
   (\<exists>n. c = Some n \<and> df (reached (row_step w im c ir st)) = mark n STOPPED (df st))"
  by (auto simp: row_step_def stop_stale_def start_pending_def reached_def Let_def
           split: sum.splits option.splits)

lemma rows_loop_df:
  "df (reached (rows_loop w im c irs st)) = df st \<or>
   (\<exists>n. c = Some n \<and> df (reached (rows_loop w im c irs st)) = mark n STOPPED (df st))"
proof (induction irs arbitrary: st)
  case Nil
  then show ?case by (simp add: reached_def)
next
  case (Cons ir irs)
  show ?case
  proof (cases "row_step w im c ir st")
    case (Inl a)
    then show ?thesis using row_step_df [of w im c ir st] by (auto simp: reached_def)
  next
    case (Inr st1)
    then have "df st1 = df st \<or> (\<exists>n. c = Some n \<and> df st1 = mark n STOPPED (df st))"
      using row_step_df [of w im c ir st] by (simp add: reached_def)
    then show ?thesis using Cons.IH [of st1] Inr by (auto simp: mark_idem)
  qed
qed

lemma run_cycle_df:
  "df (reached (run_cycle w im sc tracking)) = mark_live (containers_list w) tracking \<or>
   (containers_list w \<noteq> [] \<and>
    df (reached (run_cycle w im sc tracking)) =
      mark (last (containers_list w)) STOPPED (mark_live (containers_list w) tracking))"
  using rows_loop_df [of w im "last_container (containers_list w)"
      "enumerate 0 (mark_live (containers_list w) tracking)"
      "\<lparr>df = mark_live (containers_list w) tracking, queries = 1, launched = [], slept = 0\<rparr>"]
  by (auto simp: run_cycle_def Let_def last_container_def split: if_splits)

lemma tracking_after_cases:
  "tracking_after tracking (run_cycle w im sc tracking) = tracking \<or>
   tracking_after tracking (run_cycle w im sc tracking) = mark_live (containers_list w) tracking \<or>
   (containers_list w \<noteq> [] \<and>
    tracking_after tracking (run_cycle w im sc tracking) =
      mark (last (containers_list w)) STOPPED (mark_live (containers_list w) tracking))"
  using run_cycle_df [of w im sc tracking]
  by (auto simp: tracking_after_def reached_def split: sum.splits)

lemma not_live_unchanged:
  assumes "i < length tracking" and "docker_name (tracking ! i) \<notin> set (containers_list w)"
  shows "tracking_after tracking (run_cycle w im sc tracking) ! i = tracking ! i"
proof -
  let ?t = "tracking_after tracking (run_cycle w im sc tracking)"
  from tracking_after_cases [of tracking w im sc]
  consider "?t = tracking" | "?t = mark_live (containers_list w) tracking"
    | "containers_list w \<noteq> []"
      "?t = mark (last (containers_list w)) STOPPED (mark_live (containers_list w) tracking)"
    by blast
  then show ?thesis
  proof cases
    case 1
    then show ?thesis by simp
  next
    case 2
    then show ?thesis using assms by (simp add: mark_live_nth)
  next
    case 3
    have "last (containers_list w) \<in> set (containers_list w)" using 3(1) by simp
    then show ?thesis using 3(2) assms by (auto simp: mark_live_nth mark_nth)
  qed
qed




subsection \<open>What the loop reads of the world\<close>

lemma row_step_world_cong:
  assumes "containers_list w' = containers_list w"
      and "new_query w' (queries st) = new_query w (queries st)"
  shows "row_step w' im c ir st = row_step w im c ir st"
  using assms
  by (auto simp: row_step_def stop_stale_def start_pending_def Let_def
           split: sum.splits option.splits)

lemma rows_loop_world_cong:
  assumes "containers_list w' = containers_list w"
      and "\<forall>k \<ge> queries st. new_query w' k = new_query w k"
  shows "rows_loop w' im c irs st = rows_loop w im c irs st"
  using assms(2)
proof (induction irs arbitrary: st)
  case Nil
  then show ?case by simp
next
  case (Cons ir irs)
  have s: "row_step w' im c ir st = row_step w im c ir st"
    using Cons.prems assms(1) by (intro row_step_world_cong) auto
  show ?case
  proof (cases "row_step w im c ir st")
    case (Inl a)
    then show ?thesis using s by simp
  next
    case (Inr st1)
    then have "queries st \<le> queries st1"
      using row_step_queries_le [of st w im c ir] by (simp add: reached_def)
    then have "\<forall>k \<ge> queries st1. new_query w' k = new_query w k"
      using Cons.prems by auto
    then show ?thesis using s Inr Cons.IH by simp
  qed
qed

lemma run_cycle_world_cong:
  assumes "containers_list w' = containers_list w"
      and "\<forall>k\<ge>1. new_query w' k = new_query w k"
  shows "run_cycle w' im sc tracking = run_cycle w im sc tracking"
proof -
  have "start_state w' tracking = start_state w tracking"
    using assms(1) by (simp add: start_state_def)
  moreover have "rows_loop w' im c irs (start_state w tracking)
      = rows_loop w im c irs (start_state w tracking)" for c irs
    using assms by (intro rows_loop_world_cong) (simp_all add: start_state_def)
  ultimately show ?thesis
    using assms(1) by (simp add: run_cycle_loop)
qed

section \<open>The claims about the dispatcher\<close>

text \<open>
  Claim C1, as amended. Whenever a pass launches a row, also a pass that raises later, the
  row is PENDING in the table, no live container bears its name, and the process counts
  reported by the occupancy query made for that row add up to zero over its assigned
  devices. In a pass that runs to its end, a PENDING row without a live container of its
  name is launched if and only if that sum is zero.
\<close>

theorem pending_launched_iff_devices_idle:
  assumes "i < length tracking"
  shows "((\<exists>c. (i, c) \<in> set (launched_of (run_cycle w im sc tracking))) \<longrightarrow>
            status (tracking ! i) = PENDING \<and>
            docker_name (tracking ! i) \<notin> set (containers_list w) \<and>
            devices_idle (query_dict w (mark_live (containers_list w) tracking) i)
              (devices (tracking ! i))) \<and>
         (\<forall>st. run_cycle w im sc tracking = Inr st \<and> status (tracking ! i) = PENDING \<and>
               docker_name (tracking ! i) \<notin> set (containers_list w) \<longrightarrow>
            ((\<exists>c. (i, c) \<in> set (launched st)) \<longleftrightarrow>
             devices_idle (query_dict w (mark_live (containers_list w) tracking) i)
               (devices (tracking ! i))))"
proof -
  let ?rows = "mark_live (containers_list w) tracking"
  have len: "i < length ?rows" using assms by simp
  have st0: "launched (start_state w tracking) = []" "queries (start_state w tracking) = 1"
    by (simp_all add: start_state_def)
  have row: "?rows ! i = (if docker_name (tracking ! i) \<in> set (containers_list w)
                          then (tracking ! i)\<lparr>status := RUNNING\<rparr> else tracking ! i)"
    using assms by (simp add: mark_live_nth)
  have lo: "launched_of res = launched (reached res)" for res
    by (auto simp: launched_of_def reached_def split: sum.splits)
  have a: "status (tracking ! i) = PENDING \<and>
           docker_name (tracking ! i) \<notin> set (containers_list w) \<and>
           devices_idle (query_dict w ?rows i) (devices (tracking ! i))"
    if "(i, c) \<in> set (launched_of (run_cycle w im sc tracking))" for c
    using loop_launch_origin [OF len st0, of c w im "last_container (containers_list w)"] that row
    by (auto simp: run_cycle_loop lo devices_idle_count split: if_splits)
  have b: "(\<exists>c. (i, c) \<in> set (launched st)) \<longleftrightarrow>
           devices_idle (query_dict w ?rows i) (devices (tracking ! i))"
    if "run_cycle w im sc tracking = Inr st" "status (tracking ! i) = PENDING"
       "docker_name (tracking ! i) \<notin> set (containers_list w)" for st
  proof -
    have "status (?rows ! i) = PENDING" "devices (?rows ! i) = devices (tracking ! i)"
      using row that(2,3) by simp_all
    then show ?thesis
      using loop_decision [OF _ len _ st0, of w im "last_container (containers_list w)" st] that(1)
      by (simp add: run_cycle_loop devices_idle_count)
  qed
  show ?thesis using a b by blast
qed

text \<open>
  The same at one PENDING row with devices \<open>0,1\<close>: launched under the occupancy
  \<open>{0:0, 1:0}\<close>, not launched under \<open>{0:0, 1:1}\<close>.
\<close>

theorem pending_launched_iff_devices_idle_witness:
  "devices_idle (gpus_status_dict [(0, 0), (1, 0)]) ''0,1'' \<and>
   launched_of (run_cycle (world_of [] idle01) False False [job ''A'' ''0,1'' PENDING])
     = [(0, ''docker run -d --rm --ipc=host --name=A img'')] \<and>
   \<not> devices_idle (gpus_status_dict [(0, 0), (1, 1)]) ''0,1'' \<and>
   launched_of (run_cycle (world_of [] busy1) False False [job ''A'' ''0,1'' PENDING]) = []"
proof -
  let ?t = "[job ''A'' ''0,1'' PENDING]"
  have len: "0 < length ?t" by simp
  have l1: "launched_of (run_cycle (world_of [] idle01) False False ?t)
     = [(0, ''docker run -d --rm --ipc=host --name=A img'')]"
    by code_simp
  have q1: "query_dict (world_of [] idle01) (mark_live (containers_list (world_of [] idle01)) ?t) 0
     = gpus_status_dict [(0, 0), (1, 0)]"
    by (simp add: query_dict_def world_of_def idle01_def)
  have d1: "devices_idle (gpus_status_dict [(0, 0), (1, 0)]) ''0,1''"
    using pending_launched_iff_devices_idle [OF len, of "world_of [] idle01" False False] l1 q1
    by (simp add: job_def)
  have l2: "run_cycle (world_of [] busy1) False False ?t =
     Inr \<lparr>df = ?t, queries = 2, launched = [], slept = 0\<rparr>"
    by code_simp
  have q2: "query_dict (world_of [] busy1) (mark_live (containers_list (world_of [] busy1)) ?t) 0
     = gpus_status_dict [(0, 0), (1, 1)]"
    by (simp add: query_dict_def world_of_def busy1_def)
  have p2: "status (?t ! 0) = PENDING" "docker_name (?t ! 0) \<notin> set (containers_list (world_of [] busy1))"
    by (simp_all add: job_def world_of_def)
  have d2: "\<not> devices_idle (gpus_status_dict [(0, 0), (1, 1)]) ''0,1''"
    using pending_launched_iff_devices_idle [OF len, of "world_of [] busy1" False False] l2 q2 p2
    by (simp add: job_def)
  have l2': "launched_of (run_cycle (world_of [] busy1) False False ?t) = []"
    using l2 by (simp add: launched_of_def)
  show ?thesis using l1 d1 d2 l2' by simp
qed

text \<open>
  Claim C1 as stated fails: a PENDING row whose devices are idle is not launched when a
  live container bears its name, nor when an earlier row has ended the pass with a
  \<^verbatim>\<open>KeyError\<close>.
\<close>

theorem pending_launched_iff_devices_idle_counterexample:
  "status (job ''A'' ''0,1'' PENDING) = PENDING \<and>
   count_processes (gpus_status_dict [(0, 0), (1, 0)]) (split_on CHR '','' ''0,1'') 0 = Inr 0 \<and>
   launched_of (run_cycle (world_of [''A''] idle01) False False [job ''A'' ''0,1'' PENDING]) = [] \<and>
   raised (run_cycle (world_of [] idle01) False False
             [job ''P'' ''7'' PENDING, job ''A'' ''0,1'' PENDING]) = Some (KeyErrorInt 7) \<and>
   launched_of (run_cycle (world_of [] idle01) False False
             [job ''P'' ''7'' PENDING, job ''A'' ''0,1'' PENDING]) = []"
  by code_simp

text \<open>
  Claim C2, what the code does instead: a row that is RUNNING and whose name is absent from
  the live containers keeps the status RUNNING after the pass, for every table and world.
  Line 187 marks the rows named like the last live container, not the row at hand.
\<close>

theorem stale_running_record_stays_running:
  assumes "i < length tracking" and "status (tracking ! i) = RUNNING"
      and "docker_name (tracking ! i) \<notin> set (containers_list w)"
  shows "status (tracking_after tracking (run_cycle w im sc tracking) ! i) = RUNNING"
  using not_live_unchanged [OF assms(1,3)] assms(2) by simp

text \<open>
  With the rows A and B both RUNNING and only B live, A stays RUNNING and the live B is
  marked STOPPED.
\<close>

theorem stale_running_record_stays_running_witness:
  "status (tracking_after two_running
      (run_cycle (world_of [''B''] idle0) False False two_running) ! 0) = RUNNING \<and>
   status (tracking_after two_running
      (run_cycle (world_of [''B''] idle0) False False two_running) ! 1) = STOPPED"
proof -
  let ?w = "world_of [''B''] idle0"
  let ?t = "tracking_after two_running (run_cycle ?w False False two_running)"
  have h1: "0 < length two_running" by (simp add: two_running_def)
  have h2: "status (two_running ! 0) = RUNNING" by (simp add: two_running_def job_def)
  have h3: "docker_name (two_running ! 0) \<notin> set (containers_list ?w)"
    by (simp add: two_running_def job_def world_of_def)
  have a: "status (?t ! 0) = RUNNING"
    by (rule stale_running_record_stays_running [OF h1 h2 h3])
  have b: "status (?t ! 1) = STOPPED" by code_simp
  show ?thesis using a b by simp
qed




text \<open>
  Claim C8, as amended. The result of a pass does not depend on the occupancy snapshot taken
  at its start (query 0), and the decision for a PENDING row uses the query made for that
  row: the query whose number is one more than the number of PENDING rows read before it.
\<close>

theorem occupancy_queried_for_each_pending_record:
  "(\<forall>q. run_cycle (w\<lparr>new_query := (new_query w)(0 := q)\<rparr>) im sc tracking
          = run_cycle w im sc tracking) \<and>
   (\<forall>i st. i < length tracking \<and> run_cycle w im sc tracking = Inr st \<and>
           status (tracking ! i) = PENDING \<and>
           docker_name (tracking ! i) \<notin> set (containers_list w) \<longrightarrow>
      ((\<exists>c. (i, c) \<in> set (launched st)) \<longleftrightarrow>
       count_processes
         (gpus_status_dict
            (new_query w (1 + pending_before (mark_live (containers_list w) tracking) i)))
         (split_on CHR '','' (devices (tracking ! i))) 0 = Inr 0))"
proof (intro conjI allI impI)
  fix q
  show "run_cycle (w\<lparr>new_query := (new_query w)(0 := q)\<rparr>) im sc tracking
          = run_cycle w im sc tracking"
    by (rule run_cycle_world_cong) simp_all
next
  fix i st
  let ?rows = "mark_live (containers_list w) tracking"
  assume a: "i < length tracking \<and> run_cycle w im sc tracking = Inr st \<and>
           status (tracking ! i) = PENDING \<and>
           docker_name (tracking ! i) \<notin> set (containers_list w)"
  then have row: "?rows ! i = tracking ! i" by (simp add: mark_live_nth)
  have len: "i < length ?rows" using a by simp
  have st0: "launched (start_state w tracking) = []" "queries (start_state w tracking) = 1"
    by (simp_all add: start_state_def)
  show "(\<exists>c. (i, c) \<in> set (launched st)) \<longleftrightarrow>
       count_processes (gpus_status_dict (new_query w (1 + pending_before ?rows i)))
         (split_on CHR '','' (devices (tracking ! i))) 0 = Inr 0"
    using loop_decision [OF _ len _ st0, of w im "last_container (containers_list w)" st] a row
    by (simp add: run_cycle_loop query_dict_def)
qed

theorem occupancy_queried_for_each_pending_record_witness:
  "new_query (world_of [] busy_at_third_query) 2 = [(0, 1)] \<and>
   \<not> (\<exists>c. (1, c) \<in> set (launched_of (run_cycle (world_of [] busy_at_third_query) False False
          [job ''A'' ''0'' PENDING, job ''B'' ''0'' PENDING])))"
proof -
  let ?w = "world_of [] busy_at_third_query"
  let ?t = "[job ''A'' ''0'' PENDING, job ''B'' ''0'' PENDING]"
  have r: "run_cycle ?w False False ?t =
     Inr \<lparr>df = ?t, queries = 3,
          launched = [(0, ''docker run -d --rm --ipc=host --name=A img'')], slept = 15\<rparr>"
    by code_simp
  have h: "1 < length ?t \<and> status (?t ! 1) = PENDING \<and>
      docker_name (?t ! 1) \<notin> set (containers_list ?w)"
    by (simp add: job_def world_of_def)
  have q: "new_query ?w (1 + pending_before (mark_live (containers_list ?w) ?t) 1) = [(0, 1)]"
    by (simp add: world_of_def pending_before_def job_def busy_at_third_query_def)
  have c: "count_processes (gpus_status_dict [(0, 1)]) (split_on CHR '','' (devices (?t ! 1))) 0
      \<noteq> Inr 0"
    by code_simp
  have "\<not> (\<exists>c. (1, c) \<in> set (launched
       \<lparr>df = ?t, queries = 3,
          launched = [(0, ''docker run -d --rm --ipc=host --name=A img'')], slept = 15\<rparr>))"
    using occupancy_queried_for_each_pending_record [of ?w False False ?t] r h q c
    by (metis (no_types, lifting))
  moreover have "new_query ?w 2 = [(0, 1)]"
    by (simp add: world_of_def busy_at_third_query_def)
  ultimately show ?thesis using r by (simp add: launched_of_def)
qed

text \<open>
  Claim C8 as stated fails: with two PENDING rows on device 0 and a device that is idle in
  the snapshot taken at the start but busy at the third query, the second row is not
  launched.
\<close>

theorem occupancy_queried_for_each_pending_record_counterexample:
  "status (job ''B'' ''0'' PENDING) = PENDING \<and>
   count_processes (gpus_status_dict (new_query (world_of [] busy_at_third_query) 0))
     (split_on CHR '','' (devices (job ''B'' ''0'' PENDING))) 0 = Inr 0 \<and>
   launched_of (run_cycle (world_of [] busy_at_third_query) False False
      [job ''A'' ''0'' PENDING, job ''B'' ''0'' PENDING])
     = [(0, ''docker run -d --rm --ipc=host --name=A img'')]"
  by code_simp

text \<open>
  Claim C9, as amended. The exit status of a launched command has no influence on the
  pass. An error raised by the eligibility check of a PENDING row (a device index absent
  from the occupancy mapping, a device field that is not a number) ends the pass: the pass
  raises, no row after that one is launched, and the tracking file keeps its content.
\<close>

theorem lookup_error_ends_pass:
  "(\<forall>f. run_cycle (w\<lparr>os_system := f\<rparr>) im sc tracking = run_cycle w im sc tracking) \<and>
   (\<forall>i e. i < length tracking \<and> status (tracking ! i) = PENDING \<and>
          docker_name (tracking ! i) \<notin> set (containers_list w) \<and>
          count_processes (query_dict w (mark_live (containers_list w) tracking) i)
            (split_on CHR '','' (devices (tracking ! i))) 0 = Inl e \<longrightarrow>
      (\<exists>e' st. run_cycle w im sc tracking = Inl (e', st) \<and>
               fst ` set (launched st) \<subseteq> {..< i} \<and>
               tracking_after tracking (run_cycle w im sc tracking) = tracking))"
proof (intro conjI allI impI)
  fix f
  show "run_cycle (w\<lparr>os_system := f\<rparr>) im sc tracking = run_cycle w im sc tracking"
    by (rule run_cycle_world_cong) simp_all
next
  fix i e
  let ?rows = "mark_live (containers_list w) tracking"
  assume a: "i < length tracking \<and> status (tracking ! i) = PENDING \<and>
          docker_name (tracking ! i) \<notin> set (containers_list w) \<and>
          count_processes (query_dict w ?rows i)
            (split_on CHR '','' (devices (tracking ! i))) 0 = Inl e"
  then have row: "?rows ! i = tracking ! i" by (simp add: mark_live_nth)
  have len: "i < length ?rows" using a by simp
  have st0: "launched (start_state w tracking) = []" "queries (start_state w tracking) = 1"
    by (simp_all add: start_state_def)
  have "\<exists>e' st. run_cycle w im sc tracking = Inl (e', st) \<and> fst ` set (launched st) \<subseteq> {..< i}"
    using loop_abort [OF len _ st0, of w e im "last_container (containers_list w)"] a row
    by (simp add: run_cycle_loop)
  then show "\<exists>e' st. run_cycle w im sc tracking = Inl (e', st) \<and>
               fst ` set (launched st) \<subseteq> {..< i} \<and>
               tracking_after tracking (run_cycle w im sc tracking) = tracking"
    by (auto simp: tracking_after_def)
qed

theorem lookup_error_ends_pass_witness:
  "run_cycle (world_of [] idle0\<lparr>os_system := \<lambda>c. 1\<rparr>) False False [job ''A'' ''0'' PENDING]
     = run_cycle (world_of [] idle0) False False [job ''A'' ''0'' PENDING] \<and>
   raised (run_cycle (world_of [] idle0) False False
     [job ''P'' ''7'' PENDING, job ''Q'' ''0'' PENDING]) \<noteq> None \<and>
   launched_of (run_cycle (world_of [] idle0) False False
     [job ''P'' ''7'' PENDING, job ''Q'' ''0'' PENDING]) = []"
proof -
  let ?w = "world_of [] idle0"
  let ?t = "[job ''P'' ''7'' PENDING, job ''Q'' ''0'' PENDING]"
  have a: "run_cycle (?w\<lparr>os_system := \<lambda>c. 1\<rparr>) False False [job ''A'' ''0'' PENDING]
     = run_cycle ?w False False [job ''A'' ''0'' PENDING]"
    using lookup_error_ends_pass [of ?w False False "[job ''A'' ''0'' PENDING]"] by blast
  have h: "0 < length ?t \<and> status (?t ! 0) = PENDING \<and>
          docker_name (?t ! 0) \<notin> set (containers_list ?w) \<and>
          count_processes (query_dict ?w (mark_live (containers_list ?w) ?t) 0)
            (split_on CHR '','' (devices (?t ! 0))) 0 = Inl (KeyErrorInt 7)"
    by code_simp
  from lookup_error_ends_pass [of ?w False False ?t] h
  obtain e' st where r: "run_cycle ?w False False ?t = Inl (e', st)"
      "fst ` set (launched st) \<subseteq> {..< 0}"
    by blast
  then show ?thesis using a by (simp add: raised_def launched_of_def)
qed

text \<open>
  Claim C9 as stated fails: the device 7 of the second row is missing from the occupancy
  mapping, the pass ends with \<^verbatim>\<open>KeyError\<close> after two queries, the third row, whose
  device is idle, is not evaluated, and the status RUNNING given to the first row is not
  written to the file.
\<close>

theorem lookup_error_ends_pass_counterexample:
  "raised (run_cycle (world_of [''X''] idle0) False False
      [job ''X'' ''0'' PENDING, job ''P'' ''7'' PENDING, job ''Q'' ''0'' PENDING])
     = Some (KeyErrorInt 7) \<and>
   launched_of (run_cycle (world_of [''X''] idle0) False False
      [job ''X'' ''0'' PENDING, job ''P'' ''7'' PENDING, job ''Q'' ''0'' PENDING]) = [] \<and>
   queries (reached (run_cycle (world_of [''X''] idle0) False False
      [job ''X'' ''0'' PENDING, job ''P'' ''7'' PENDING, job ''Q'' ''0'' PENDING])) = 2 \<and>
   map status (df (reached (run_cycle (world_of [''X''] idle0) False False
      [job ''X'' ''0'' PENDING, job ''P'' ''7'' PENDING, job ''Q'' ''0'' PENDING])))
     = [RUNNING, PENDING, PENDING] \<and>
   map status (tracking_after
      [job ''X'' ''0'' PENDING, job ''P'' ''7'' PENDING, job ''Q'' ''0'' PENDING]
      (run_cycle (world_of [''X''] idle0) False False
        [job ''X'' ''0'' PENDING, job ''P'' ''7'' PENDING, job ''Q'' ''0'' PENDING]))
     = [PENDING, PENDING, PENDING] \<and>
   count_processes (gpus_status_dict (idle0 2)) (split_on CHR '','' ''0'') 0 = Inr 0"
  by code_simp

text \<open>
  Claim C10, as amended. With no live container and a RUNNING row in the table, the pass
  raises before the table is persisted and no row is marked STOPPED. The error is the
  unbound variable \<^verbatim>\<open>container\<close> of line 187, unless the eligibility check of a PENDING
  row placed before the first RUNNING row has raised already.
\<close>

theorem no_live_container_running_record_raises:
  assumes "containers_list w = []" and "\<exists>r\<in>set tracking. status r = RUNNING"
  shows "\<exists>e st. run_cycle w im sc tracking = Inl (e, st) \<and> df st = tracking \<and>
           tracking_after tracking (run_cycle w im sc tracking) = tracking \<and>
           (e = UnboundLocalError ''container'' \<or>
            (\<exists>j<length tracking. status (tracking ! j) = PENDING \<and>
               (\<forall>k\<le>j. status (tracking ! k) \<noteq> RUNNING) \<and>
               count_processes (query_dict w tracking j)
                 (split_on CHR '','' (devices (tracking ! j))) 0 = Inl e))"
proof -
  from assms(2) obtain ys x zs where
    t: "tracking = ys @ x # zs" and x: "status x = RUNNING" and
    ys: "\<forall>y\<in>set ys. status y \<noteq> RUNNING"
    using split_list_first_prop [of tracking "\<lambda>r. status r = RUNNING"] by blast
  let ?st0 = "start_state w tracking"
  have st0: "df ?st0 = tracking" "queries ?st0 = 1"
    using assms(1) by (simp_all add: start_state_def)
  have run: "run_cycle w im sc tracking = rows_loop w im None (enumerate 0 tracking) ?st0"
    using assms(1) by (simp add: run_cycle_loop last_container_def)
  have dfres: "df (reached (rows_loop w im None irs ?st0)) = tracking" for irs
    using rows_loop_df [of w im None irs ?st0] st0 by simp
  have i: "length ys < length tracking" "take (length ys) tracking = ys"
      "tracking ! length ys = x"
    using t by simp_all
  have at: "rows_loop w im None (enumerate 0 tracking) ?st0 =
     (case rows_loop w im None (enumerate 0 ys) ?st0 of
        Inl e \<Rightarrow> Inl e
      | Inr st1 \<Rightarrow>
          (case row_step w im None (length ys, x) st1 of
             Inl e \<Rightarrow> Inl e
           | Inr st2 \<Rightarrow> rows_loop w im None (enumerate (Suc (length ys)) zs) st2))"
    unfolding t by (simp add: enumerate_append_eq rows_loop_append split: sum.splits)
  have "\<exists>e st. rows_loop w im None (enumerate 0 tracking) ?st0 = Inl (e, st) \<and>
     (e = UnboundLocalError ''container'' \<or>
            (\<exists>j<length tracking. status (tracking ! j) = PENDING \<and>
               (\<forall>k\<le>j. status (tracking ! k) \<noteq> RUNNING) \<and>
               count_processes (query_dict w tracking j)
                 (split_on CHR '','' (devices (tracking ! j))) 0 = Inl e))"
  proof (cases "rows_loop w im None (enumerate 0 ys) ?st0")
    case (Inl a)
    obtain e st where a: "a = (e, st)" by (cases a)
    from loop_error_origin [OF Inl [unfolded a] st0(2)]
    have "e = UnboundLocalError ''container'' \<or>
            (\<exists>j<length tracking. status (tracking ! j) = PENDING \<and>
               (\<forall>k\<le>j. status (tracking ! k) \<noteq> RUNNING) \<and>
               count_processes (query_dict w tracking j)
                 (split_on CHR '','' (devices (tracking ! j))) 0 = Inl e)"
    proof
      assume "e = UnboundLocalError ''container'' \<and> None = None"
      then show ?thesis by simp
    next
      assume "\<exists>j<length ys. status (ys ! j) = PENDING \<and>
        count_processes (query_dict w ys j) (split_on CHR '','' (devices (ys ! j))) 0 = Inl e"
      then obtain j where j: "j < length ys" "status (ys ! j) = PENDING"
        "count_processes (query_dict w ys j) (split_on CHR '','' (devices (ys ! j))) 0 = Inl e"
        by blast
      have "\<forall>k\<le>j. status (tracking ! k) \<noteq> RUNNING"
        using j(1) ys t by (auto simp: nth_append)
      moreover have "j < length tracking" "status (tracking ! j) = PENDING"
        "count_processes (query_dict w tracking j)
           (split_on CHR '','' (devices (tracking ! j))) 0 = Inl e"
        using j t by (simp_all add: nth_append query_dict_append)
      ultimately show ?thesis by blast
    qed
    then show ?thesis using at Inl a by auto
  next
    case (Inr st1)
    have "row_step w im None (length ys, x) st1 = Inl (UnboundLocalError ''container'', st1)"
      using x assms(1) by (simp add: row_step_def stop_stale_def)
    then show ?thesis using at Inr by simp
  qed
  then obtain e st where r: "run_cycle w im sc tracking = Inl (e, st)" and
    e: "e = UnboundLocalError ''container'' \<or>
            (\<exists>j<length tracking. status (tracking ! j) = PENDING \<and>
               (\<forall>k\<le>j. status (tracking ! k) \<noteq> RUNNING) \<and>
               count_processes (query_dict w tracking j)
                 (split_on CHR '','' (devices (tracking ! j))) 0 = Inl e)"
    using run by auto
  have "df st = tracking"
    using dfres [of "enumerate 0 tracking"] r run by (simp add: reached_def)
  moreover have "tracking_after tracking (run_cycle w im sc tracking) = tracking"
    using r by (simp add: tracking_after_def)
  ultimately show ?thesis using r e by blast
qed

theorem no_live_container_running_record_raises_witness:
  "raised (run_cycle (world_of [] idle0) False False
             [job ''P'' ''0'' PENDING, job ''R'' ''0'' RUNNING])
     = Some (UnboundLocalError ''container'')"
proof -
  let ?w = "world_of [] idle0"
  let ?t = "[job ''P'' ''0'' PENDING, job ''R'' ''0'' RUNNING]"
  have h1: "containers_list ?w = []" by (simp add: world_of_def)
  have h2: "\<exists>r\<in>set ?t. status r = RUNNING" by (simp add: job_def)
  have c: "count_processes (query_dict ?w ?t 0) (split_on CHR '','' (devices (?t ! 0))) 0 = Inr 0"
    by code_simp
  from no_live_container_running_record_raises [OF h1 h2, of False False]
  obtain e st where r: "run_cycle ?w False False ?t = Inl (e, st)" and
    e: "e = UnboundLocalError ''container'' \<or>
        (\<exists>j<length ?t. status (?t ! j) = PENDING \<and> (\<forall>k\<le>j. status (?t ! k) \<noteq> RUNNING) \<and>
           count_processes (query_dict ?w ?t j) (split_on CHR '','' (devices (?t ! j))) 0 = Inl e)"
    by blast
  have "e = UnboundLocalError ''container''"
    using e
  proof
    assume "e = UnboundLocalError ''container''"
    then show ?thesis .
  next
    assume "\<exists>j<length ?t. status (?t ! j) = PENDING \<and> (\<forall>k\<le>j. status (?t ! k) \<noteq> RUNNING) \<and>
           count_processes (query_dict ?w ?t j) (split_on CHR '','' (devices (?t ! j))) 0 = Inl e"
    then obtain j where j: "j < length ?t" "status (?t ! j) = PENDING"
      "count_processes (query_dict ?w ?t j) (split_on CHR '','' (devices (?t ! j))) 0 = Inl e"
      by blast
    have "j = 0" using j(1,2) by (cases j) (simp_all add: job_def)
    then show ?thesis using j(3) c by simp
  qed
  then show ?thesis using r by (simp add: raised_def)
qed

text \<open>
  Claim C10 as stated fails: a PENDING row with an unknown device before the RUNNING row
  makes the pass end with \<^verbatim>\<open>KeyError\<close>, not with the unbound variable.
\<close>

theorem no_live_container_running_record_raises_counterexample:
  "containers_list (world_of [] idle0) = [] \<and>
   status (job ''R'' ''0'' RUNNING) = RUNNING \<and>
   raised (run_cycle (world_of [] idle0) False False
             [job ''P'' ''7'' PENDING, job ''R'' ''0'' RUNNING]) = Some (KeyErrorInt 7)"
  by code_simp

section \<open>Properties of the parameter expander\<close>

lemma product_step_Nil [simp]: "product_step [] pool = []"
  by (simp add: product_step_def)

lemma product_step_Cons:
  "product_step (x # result) pool = map (\<lambda>y. x @ [y]) pool @ product_step result pool"
  by (simp add: product_step_def)

lemma concat_singletons: "concat (map (\<lambda>p. [p]) acc) = acc"
  by (induction acc) simp_all

lemma expand_step:
  "concat (map (\<lambda>p. map (\<lambda>ys. p @ ys) pl) (product_step acc pool)) =
   concat (map (\<lambda>p. map (\<lambda>ys. p @ ys) (concat (map (\<lambda>y. map (Cons y) pl) pool))) acc)"
proof (induction acc)
  case Nil
  then show ?case by simp
next
  case (Cons a acc)
  have "concat (map (\<lambda>p. map (\<lambda>ys. p @ ys) pl) (map (\<lambda>y. a @ [y]) pool)) =
        map (\<lambda>ys. a @ ys) (concat (map (\<lambda>y. map (Cons y) pl) pool))"
    by (induction pool) simp_all
  then show ?case using Cons.IH by (simp add: product_step_Cons)
qed

lemma fold_product_step:
  "fold (\<lambda>pool result. product_step result pool) pools acc =
     concat (map (\<lambda>p. map (\<lambda>ys. p @ ys) (product_lists pools)) acc)"
proof (induction pools arbitrary: acc)
  case Nil
  then show ?case by (simp add: concat_singletons)
next
  case (Cons pool pools)
  have "fold (\<lambda>pool result. product_step result pool) (pool # pools) acc =
        fold (\<lambda>pool result. product_step result pool) pools (product_step acc pool)"
    by simp
  also have "\<dots> = concat (map (\<lambda>p. map (\<lambda>ys. p @ ys) (product_lists pools))
                        (product_step acc pool))"
    by (rule Cons.IH)
  also have "\<dots> = concat (map (\<lambda>p. map (\<lambda>ys. p @ ys)
                        (concat (map (\<lambda>y. map (Cons y) (product_lists pools)) pool))) acc)"
    by (rule expand_step)
  finally show ?case by simp
qed

lemma map_append_Nil: "map ((@) []) xs = xs"
  by (induction xs) simp_all

lemma itertools_product_lists: "itertools_product pools = product_lists pools"
  by (simp add: itertools_product_def fold_product_step map_append_Nil)

lemma upt_blocks:
  "[0 ..< l * m] = concat (map (\<lambda>i. map (\<lambda>r. i * m + r) [0 ..< m]) [0 ..< l])"
proof (induction l)
  case 0
  then show ?case by simp
next
  case (Suc l)
  have "[0 ..< Suc l * m] = [0 ..< l * m] @ [l * m ..< l * m + m]"
    using upt_add_eq_append [of 0 "l * m" m] by (simp add: add.commute)
  moreover have "[l * m ..< l * m + m] = map (\<lambda>r. l * m + r) [0 ..< m]"
    using map_add_upt [of "l * m" m] by (simp add: add.commute)
  ultimately show ?case using Suc by simp
qed

lemma product_lists_mixed_radix:
  "product_lists xss = map (mixed_radix_pick xss) [0 ..< prod_list (map length xss)]"
proof (induction xss)
  case Nil
  then show ?case by simp
next
  case (Cons xs xss)
  let ?m = "prod_list (map length xss)"
  have block: "map (\<lambda>r. mixed_radix_pick (xs # xss) (i * ?m + r)) [0 ..< ?m] =
               map (Cons (xs ! i)) (product_lists xss)" for i
  proof -
    have "map (\<lambda>r. mixed_radix_pick (xs # xss) (i * ?m + r)) [0 ..< ?m] =
          map (\<lambda>r. xs ! i # mixed_radix_pick xss r) [0 ..< ?m]"
      by (rule map_cong) auto
    also have "\<dots> = map (Cons (xs ! i)) (map (mixed_radix_pick xss) [0 ..< ?m])"
      by simp
    finally show ?thesis using Cons.IH by simp
  qed
  have "map (mixed_radix_pick (xs # xss)) [0 ..< length xs * ?m] =
        concat (map (\<lambda>i. map (\<lambda>r. mixed_radix_pick (xs # xss) (i * ?m + r)) [0 ..< ?m])
                  [0 ..< length xs])"
    unfolding upt_blocks [of "length xs" ?m] by (simp add: map_concat comp_def)
  also have "\<dots> = concat (map (\<lambda>i. map (Cons (xs ! i)) (product_lists xss)) [0 ..< length xs])"
    by (simp only: block)
  also have "\<dots> = concat (map (\<lambda>x. map (Cons x) (product_lists xss))
                          (map (\<lambda>i. xs ! i) [0 ..< length xs]))"
    by (simp add: comp_def)
  also have "\<dots> = concat (map (\<lambda>x. map (Cons x) (product_lists xss)) xs)"
    by (simp only: map_nth)
  finally show ?case by (simp del: mixed_radix_pick.simps)
qed

lemma product_dict_cartesian: "product_dict kwargs = cartesian_order kwargs"
  by (simp add: product_dict_def cartesian_order_def itertools_product_lists
        product_lists_mixed_radix comp_def)

lemma product_dict_lists:
  "product_dict kwargs = map (zip (map fst kwargs)) (product_lists (map snd kwargs))"
  by (simp add: product_dict_def itertools_product_lists)

lemma length_product_dict:
  "length (product_dict kwargs) = prod_list (map (\<lambda>kv. length (snd kv)) kwargs)"
  by (simp add: product_dict_cartesian cartesian_order_def)

lemma product_dict_member:
  assumes "a \<in> set (product_dict kwargs)"
  shows "map fst a = map fst kwargs \<and> (\<forall>j<length kwargs. snd (a ! j) \<in> set (snd (kwargs ! j)))"
proof -
  from assms obtain inst where inst: "inst \<in> set (product_lists (map snd kwargs))"
      "a = zip (map fst kwargs) inst"
    by (auto simp: product_dict_lists)
  have len: "length inst = length kwargs"
    using in_set_product_lists_length [OF inst(1)] by simp
  have all: "list_all2 (\<lambda>x ys. x \<in> set ys) inst (map snd kwargs)"
    using inst(1) by (simp add: product_lists_set)
  have "map fst a = map fst kwargs" using inst(2) len by simp
  moreover have "snd (a ! j) \<in> set (snd (kwargs ! j))" if "j < length kwargs" for j
  proof -
    have "snd (a ! j) = inst ! j" using inst(2) len that by simp
    moreover have "inst ! j \<in> set (map snd kwargs ! j)"
      using list_all2_nthD [OF all, of j] len that by simp
    ultimately show ?thesis using that by simp
  qed
  ultimately show ?thesis by blast
qed

lemma distinct_product_dict:
  assumes "distinct (map fst kwargs)" and "\<forall>kv\<in>set kwargs. distinct (snd kv)"
  shows "distinct (map map_of (product_dict kwargs))"
proof -
  let ?keys = "map fst kwargs"
  let ?pl = "product_lists (map snd kwargs)"
  have d: "distinct ?pl"
    using assms(2) by (intro distinct_product_lists) auto
  have inj: "inj_on (\<lambda>inst. map_of (zip ?keys inst)) (set ?pl)"
  proof (rule inj_onI)
    fix x y
    assume x: "x \<in> set ?pl" and y: "y \<in> set ?pl"
      and e: "map_of (zip ?keys x) = map_of (zip ?keys y)"
    have lx: "length x = length ?keys" and ly: "length y = length ?keys"
      using in_set_product_lists_length [OF x] in_set_product_lists_length [OF y] by simp_all
    show "x = y" by (rule map_of_zip_inject [OF lx ly assms(1) e])
  qed
  have "distinct (map (\<lambda>inst. map_of (zip ?keys inst)) ?pl)"
    using d inj by (simp add: distinct_map)
  then show ?thesis by (simp add: product_dict_lists comp_def)
qed

text \<open>
  Claim C7. For every mapping from parameter names to lists of candidates, the expansion has
  as many assignments as the product of the axis lengths; every assignment has the keys of
  the mapping, in its order, and gives each key one candidate of its axis; the assignments
  are pairwise different dictionaries when the candidates of each axis are (the keys of a
  dictionary never repeat); and they come in the cartesian order in which the rightmost
  axis varies fastest. Being a function of the mapping alone, the expansion is the same on
  every run.
\<close>

theorem product_dict_expansion:
  "length (product_dict kwargs) = prod_list (map (\<lambda>kv. length (snd kv)) kwargs) \<and>
   (\<forall>a\<in>set (product_dict kwargs).
      map fst a = map fst kwargs \<and> (\<forall>j<length kwargs. snd (a ! j) \<in> set (snd (kwargs ! j)))) \<and>
   (distinct (map fst kwargs) \<and> (\<forall>kv\<in>set kwargs. distinct (snd kv))
      \<longrightarrow> distinct (map map_of (product_dict kwargs))) \<and>
   product_dict kwargs = cartesian_order kwargs"
  using length_product_dict [of kwargs] product_dict_member [of _ kwargs]
    distinct_product_dict [of kwargs] product_dict_cartesian [of kwargs]
  by blast

text \<open>The axes \<open>batch-size: [32, 64]\<close> and \<open>epochs: [1]\<close> expand to two assignments.\<close>

theorem product_dict_expansion_witness:
  "product_dict scenario_params =
     [[(''batch-size'', 32), (''epochs'', 1)], [(''batch-size'', 64), (''epochs'', 1)]] \<and>
   length (product_dict scenario_params) = 2 \<and>
   distinct (map map_of (product_dict scenario_params))"
proof -
  have h: "distinct (map fst scenario_params) \<and> (\<forall>kv\<in>set scenario_params. distinct (snd kv))"
    by (simp add: scenario_params_def)
  have d: "distinct (map map_of (product_dict scenario_params))"
    using product_dict_expansion [of scenario_params] h by blast
  have "length (product_dict scenario_params) =
      prod_list (map (\<lambda>kv. length (snd kv)) scenario_params)"
    using product_dict_expansion [of scenario_params] by blast
  also have "\<dots> = 2" by (simp add: scenario_params_def)
  finally have l: "length (product_dict scenario_params) = 2" .
  have v: "product_dict scenario_params =
     [[(''batch-size'', 32), (''epochs'', 1)], [(''batch-size'', 64), (''epochs'', 1)]]"
    by code_simp
  show ?thesis using d l v by simp
qed

section \<open>Properties of the generator\<close>

lemma and_then_Inr:
  "and_then m f = Inr y \<longleftrightarrow> (\<exists>v. m = Inr v \<and> f v = Inr y)"
  by (cases m) (simp_all add: and_then_def)

lemma map_of_dict_set:
  "map_of (dict_set key v kvs) k = (if k = key then Some v else map_of kvs k)"
  by (induction kvs) auto

lemma map_of_dict_union:
  "k \<notin> fst ` set b \<Longrightarrow> map_of (dict_union a b) k = map_of a k"
  unfolding dict_union_def
  by (induction b arbitrary: a) (auto simp: map_of_dict_set)

lemma getitem_cmd_replacements:
  assumes "k \<notin> {''NVIDIA_VISIBLE_DEVICES'', ''NB_CUDA_DEVICES'', ''SYSTEM_NAME'',
                 ''BENCHMARK_NAME'', ''CAPABILITY''}"
  shows "getitem (YDict (cmd_replacements_of sys bench cap vis nb params)) k
           = getitem (YDict params) k"
proof -
  have "map_of (cmd_replacements_of sys bench cap vis nb params) k = map_of params k"
    unfolding cmd_replacements_of_def using assms by (intro map_of_dict_union) auto
  then show ?thesis by (simp add: getitem_def)
qed

lemma run_name_of_Inr:
  assumes "run_name_of bench sys cap repl = Inr run_name"
  shows "\<exists>b e lr. getitem (YDict repl) ''batch-size'' = Inr b \<and>
           getitem (YDict repl) ''epochs'' = Inr e \<and>
           getitem (YDict repl) ''learning-rate'' = Inr lr \<and>
           run_name = bench @ ''-'' @ sys @ ''-'' @ cap
                        @ ''-B'' @ py_str b @ ''xE'' @ py_str e @ ''xLR'' @ py_str lr"
  using assms unfolding run_name_of_def and_then_Inr by auto

lemma experiment_row_Inr:
  assumes "experiment_row env sys bench wandb_config im vis mounts cap repl prepared docker
             executable commands = Inr r"
  shows "\<exists>run_mode run_name wandb workdir formatted.
           run_name_of bench sys cap repl = Inr run_name \<and>
           r = \<lparr>benchmark_name = bench, system_name = sys, devices = vis,
                docker_name = bench @ ''-'' @ sys @ ''-'' @ cap, status = PENDING,
                cmd = docker_run_cmd run_mode run_name wandb mounts vis workdir cap bench
                        (prepared @ formatted)\<rparr>"
  using assms unfolding experiment_row_def and_then_Inr by blast

lemma experiment_of_Some:
  assumes "experiment_of env sys bench benchmark_config wandb_config im vis nb mounts cap
             = Inr (Some r)"
  shows "row_of_job bench sys benchmark_config r"
proof -
  from assms obtain params params_items prepared docker executable commands where
    p: "getitem benchmark_config ''params'' = Inr params" "star_items params = Inr params_items" and
    row: "experiment_row env sys bench wandb_config im vis mounts cap
            (cmd_replacements_of sys bench cap vis nb params_items) prepared docker executable
            commands = Inr r"
    unfolding experiment_of_def by (auto simp: and_then_Inr Let_def split: if_splits)
  have pd: "params = YDict params_items"
    using p(2) by (cases params) (simp_all add: star_items_def)
  let ?repl = "cmd_replacements_of sys bench cap vis nb params_items"
  from experiment_row_Inr [OF row] obtain run_mode run_name wandb workdir formatted where
    rn: "run_name_of bench sys cap ?repl = Inr run_name" and
    r: "r = \<lparr>benchmark_name = bench, system_name = sys, devices = vis,
                docker_name = bench @ ''-'' @ sys @ ''-'' @ cap, status = PENDING,
                cmd = docker_run_cmd run_mode run_name wandb mounts vis workdir cap bench
                        (prepared @ formatted)\<rparr>"
    by blast
  from run_name_of_Inr [OF rn] obtain b e lr where
    l: "getitem (YDict ?repl) ''batch-size'' = Inr b"
       "getitem (YDict ?repl) ''epochs'' = Inr e"
       "getitem (YDict ?repl) ''learning-rate'' = Inr lr" and
    n: "run_name = bench @ ''-'' @ sys @ ''-'' @ cap
                        @ ''-B'' @ py_str b @ ''xE'' @ py_str e @ ''xLR'' @ py_str lr"
    by blast
  have "getitem params ''batch-size'' = Inr b" "getitem params ''epochs'' = Inr e"
       "getitem params ''learning-rate'' = Inr lr"
    using l by (simp_all add: getitem_cmd_replacements pd)
  then have "getitem benchmark_config ''params'' = Inr params \<and>
        getitem params ''batch-size'' = Inr b \<and>
        getitem params ''epochs'' = Inr e \<and>
        getitem params ''learning-rate'' = Inr lr \<and>
        r = \<lparr>benchmark_name = bench, system_name = sys, devices = devices r,
             docker_name = bench @ ''-'' @ sys @ ''-'' @ cap, status = PENDING,
             cmd = docker_run_cmd run_mode
                     (bench @ ''-'' @ sys @ ''-'' @ cap
                        @ ''-B'' @ py_str b @ ''xE'' @ py_str e @ ''xLR'' @ py_str lr)
                     wandb mounts (devices r) workdir cap bench (prepared @ formatted)\<rparr>"
    using p(1) r n by simp
  then show ?thesis
    unfolding row_of_job_def by blast
qed

lemma capabilities_loop_rows:
  assumes "capabilities_loop env sys bench benchmark_config wandb_config im vis nb mounts caps
             experiments = Inr rows"
      and "\<forall>r\<in>set experiments. row_of_job bench sys benchmark_config r"
  shows "\<forall>r\<in>set rows. row_of_job bench sys benchmark_config r"
  using assms
proof (induction caps arbitrary: experiments)
  case Nil
  then show ?case by simp
next
  case (Cons c caps)
  obtain cap is_active where c: "c = (cap, is_active)" by (cases c)
  show ?case
  proof (cases "truthy is_active")
    case False
    then show ?thesis using Cons c by simp
  next
    case True
    from Cons.prems(1) True c obtain row where
      e: "experiment_of env sys bench benchmark_config wandb_config im vis nb mounts cap = Inr row"
      and l: "capabilities_loop env sys bench benchmark_config wandb_config im vis nb mounts caps
             (case row of None \<Rightarrow> experiments | Some r \<Rightarrow> experiments @ [r]) = Inr rows"
      by (auto simp: and_then_Inr)
    have "\<forall>r\<in>set (case row of None \<Rightarrow> experiments | Some r \<Rightarrow> experiments @ [r]).
            row_of_job bench sys benchmark_config r"
      using Cons.prems(2) e experiment_of_Some by (cases row) auto
    from Cons.IH [OF l this] show ?thesis .
  qed
qed

lemma generate_docker_rows:
  assumes "generate_docker env sys system_config bench benchmark_config data_config
             wandb_config im = Inr rows"
      and "r \<in> set rows"
  shows "row_of_job bench sys benchmark_config r"
proof -
  from assms(1) obtain vis nb mounts caps where
    "capabilities_loop env sys bench benchmark_config wandb_config im vis nb mounts caps []
       = Inr rows"
    unfolding generate_docker_def and_then_Inr Let_def by auto
  from capabilities_loop_rows [OF this] assms(2) show ?thesis by simp
qed

lemma example_rows_value:
  "generate_docker example_env ''sys'' example_system ''b'' example_job (YDict [])
     (YDict [(''active'', YBool False)]) False = Inr example_rows"
  by code_simp

lemma example_rows_eval:
  "map docker_name example_rows = [''b-sys-fp16''] \<and>
   map cmd example_rows =
     [''docker run -d --rm --ipc=host --name=b-sys-fp16-B32xE1xLR0.1   --gpus ''
        @ [CHR 0x27] @ ''device=0'' @ [CHR 0x27]
        @ '' -w /work -e PRECISION=fp16 b bash -c '' @ [CHR 0x27] @ ''run.sh 32 1'' @ [CHR 0x27]]"
  by code_simp

section \<open>The claims about the generator\<close>




text \<open>
  Claim C4, what the code does instead: in every row that \<^verbatim>\<open>generate_docker\<close> produces, the
  name given to the container after \<^verbatim>\<open>--name=\<close> is the field \<open>docker_name\<close> followed by
  \<^verbatim>\<open>-B\<close> and the parameters, so it is never the field itself. Line 151 writes the name without
  the parameters that line 121 put into the run name.
\<close>

theorem container_name_extends_docker_name:
  assumes "generate_docker env sys system_config bench benchmark_config data_config
             wandb_config im = Inr rows"
      and "r \<in> set rows"
  shows "\<exists>run_mode rest.
           cmd r = ''docker run -'' @ run_mode @ '' --rm --ipc=host --name=''
                     @ docker_name r @ ''-B'' @ rest"
proof -
  from generate_docker_rows [OF assms]
  obtain cap b e lr run_mode wandb mounts workdir benchmark_cmd where
    r: "r = \<lparr>benchmark_name = bench, system_name = sys, devices = devices r,
             docker_name = bench @ ''-'' @ sys @ ''-'' @ cap, status = PENDING,
             cmd = docker_run_cmd run_mode
                     (bench @ ''-'' @ sys @ ''-'' @ cap
                        @ ''-B'' @ py_str b @ ''xE'' @ py_str e @ ''xLR'' @ py_str lr)
                     wandb mounts (devices r) workdir cap bench benchmark_cmd\<rparr>"
    unfolding row_of_job_def by blast
  have d: "docker_name r = bench @ ''-'' @ sys @ ''-'' @ cap"
    by (subst r) simp
  have "cmd r = docker_run_cmd run_mode
                     (bench @ ''-'' @ sys @ ''-'' @ cap
                        @ ''-B'' @ py_str b @ ''xE'' @ py_str e @ ''xLR'' @ py_str lr)
                     wandb mounts (devices r) workdir cap bench benchmark_cmd"
    by (subst r) simp
  then have "cmd r = ''docker run -'' @ run_mode @ '' --rm --ipc=host --name=''
                  @ docker_name r @ ''-B''
                  @ (py_str b @ ''xE'' @ py_str e @ ''xLR'' @ py_str lr @ '' ''
                     @ wandb @ '' '' @ mounts @ '' --gpus '' @ [CHR 0x27] @ ''device='' @ devices r
                     @ [CHR 0x27] @ '' -w '' @ workdir @ '' -e PRECISION='' @ cap @ '' ''
                     @ bench @ '' bash -c '' @ [CHR 0x27] @ benchmark_cmd @ [CHR 0x27])"
    by (simp add: docker_run_cmd_def d)
  then show ?thesis by blast
qed

text \<open>
  For the job b on sys with capability fp16, batch size 32, one epoch and learning rate 0.1,
  the field is \<^verbatim>\<open>b-sys-fp16\<close> and the container is named \<^verbatim>\<open>b-sys-fp16-B32xE1xLR0.1\<close>; with
  that container alive, a pass leaves the row PENDING.
\<close>

theorem container_name_extends_docker_name_witness:
  "map docker_name example_rows = [''b-sys-fp16''] \<and>
   (\<exists>run_mode rest. cmd (hd example_rows) =
      ''docker run -'' @ run_mode @ '' --rm --ipc=host --name=b-sys-fp16-B'' @ rest) \<and>
   map status (tracking_after example_rows
      (run_cycle (world_of [''b-sys-fp16-B32xE1xLR0.1''] busy0) False False example_rows))
     = [PENDING]"
proof -
  have m: "hd example_rows \<in> set example_rows" by code_simp
  have n: "docker_name (hd example_rows) = ''b-sys-fp16''" by code_simp
  have a: "\<exists>run_mode rest. cmd (hd example_rows) =
      ''docker run -'' @ run_mode @ '' --rm --ipc=host --name=b-sys-fp16-B'' @ rest"
    using container_name_extends_docker_name [OF example_rows_value m] n by simp
  have b: "map docker_name example_rows = [''b-sys-fp16'']" by code_simp
  have c: "map status (tracking_after example_rows
      (run_cycle (world_of [''b-sys-fp16-B32xE1xLR0.1''] busy0) False False example_rows))
     = [PENDING]"
    by code_simp
  show ?thesis using a b c by simp
qed

text \<open>
  Claim C6, what the code does instead. The template has the batch sizes 32 and 64; the
  benchmark b1 overrides them with 8 and the benchmark b2 overrides nothing. After the
  generation the template stored in the configuration has the batch size 8 of b1, and b2
  has produced one row, where b2 alone produces two: line 55 merges into the template
  object itself.
\<close>

theorem template_overwritten_by_override:
  "lookup_path (example_config with_learning_rate two_benchmarks)
      [''benchmarks-template'', ''tmpl'', ''params'', ''batch-size'']
     = Inr (YList [YInt 32, YInt 64]) \<and>
   gen_raised (generate_all_benchmarks example_env
      (example_config with_learning_rate two_benchmarks) False []) = None \<and>
   lookup_path (templates_ref (generated (generate_all_benchmarks example_env
      (example_config with_learning_rate two_benchmarks) False [])))
      [''tmpl'', ''params'', ''batch-size'']
     = Inr (YList [YInt 8]) \<and>
   map benchmark_name (tracking_file (generated (generate_all_benchmarks example_env
      (example_config with_learning_rate two_benchmarks) False []))) = [''b1'', ''b2''] \<and>
   map benchmark_name (tracking_file (generated (generate_all_benchmarks example_env
      (example_config with_learning_rate second_benchmark_alone) False []))) = [''b2'', ''b2'']"
  by code_simp


end
